theory Spec2Isabelle
  imports Main
begin

section \<open>Data model\<close>

text \<open>
  The program (\<^verbatim>\<open>main.py\<close>) handles the platform's JSON objects as Python dicts and
  reads a fixed set of keys from each. A dict that is used as a struct is a record here,
  with one field for each key the code reads; the class tag \<^verbatim>\<open>_class\<close> stays a
  string, since the code compares it with string literals and ignores every tag it does
  not know.
\<close>

datatype asset = Asset string

datatype caption = Caption string

text \<open>One entry of the paginated listing (a chapter, a lecture, a practice item, ...).\<close>

record item =
  i_class :: string
  i_id :: int
  i_title :: string
  i_description :: string
  i_is_published :: bool
  i_is_free :: bool
  i_supplementary_assets :: "asset list"

text \<open>The dict that \<^verbatim>\<open>organize_curriculum\<close> builds for a chapter item.\<close>

record "chapter" =
  c_id :: int
  c_title :: string
  c_description :: string
  c_is_published :: bool
  children :: "item list"

text \<open>One element of \<^verbatim>\<open>asset.media_sources\<close> in a lecture's detail.\<close>

record media_source =
  ms_type :: string
  ms_src :: string

text \<open>
  The lecture detail: \<^verbatim>\<open>lect_info["id"]\<close>, \<^verbatim>\<open>lect_info["asset"]["captions"]\<close> and
  \<^verbatim>\<open>lect_info["asset"]["media_sources"]\<close>.
\<close>

record lect_info =
  li_id :: int
  li_captions :: "caption list"
  li_media_sources :: "media_source list"

text \<open>
  One page of the listing. The code reads it with \<^verbatim>\<open>response.get\<close>, so each key may
  be absent (\<open>None\<close>); a \<^verbatim>\<open>null\<close> cursor reads like an absent one.
\<close>

record page =
  p_detail :: "string option"
  p_count :: "int option"
  p_results :: "item list option"
  p_next :: "string option"

subsection \<open>Effects\<close>

text \<open>
  Every message the program can log is a constructor that carries the values
  interpolated into it. An event is one observable action: a log line, a progress-bar
  update, or a call that leaves the program, with the arguments it is given.
\<close>

datatype level = INFO | WARNING | ERROR | CRITICAL

datatype msg =
    ServerUnreachable
  | FetchingCurriculum
  | CurriculumNotFound
  | OrphanItem
  | DiscoveredChapters nat
  | DiscoveredLectures nat
  | FetchLectureInfoFailed
  | DirectoryExists string
  | CreateDirectoryFailed string
  | DownloadingChapter string nat nat
  | DownloadingLecture string nat nat
  | DownloadingCaptions nat
  | DownloadingAssets nat
  | M3U8Missing string
  | MPDMissing string
  | Mp4NotSupported
  | DrmProtected
  | KeyMalformed
  | DownloadStarting
  | AllDownloaded
  | DownloadComplete
  | CurriculumLoaded string
  | CurriculumMalformed
  | CurriculumFileMissing
  | CurriculumPathMissing
  | CurriculumFileExists
  | CurriculumSaved string

datatype event =
    Log level msg
  | HttpGet string
  | ProgressAddTask int
  | ProgressTotal int
  | ProgressCompleted nat
  | Makedirs string
  | ThreadPoolExecutor nat
  | DownloadCaptions "caption list" string string "string list"
  | ProcessAssets "asset list" string int int
  | DownloadM3U8 string string string
  | DownloadMPD string string string "string option"

text \<open>
  What a Python call can raise here: \<^verbatim>\<open>sys.exit(n)\<close> raises \<^verbatim>\<open>SystemExit\<close>;
  \<open>Raised\<close> is any other exception.
\<close>

datatype exn = SystemExit int | Raised

text \<open>
  The answer to \<^verbatim>\<open>requests.get(url, ...)\<close> followed by \<^verbatim>\<open>.json()\<close>:
  \<open>NoResponse\<close> when \<^verbatim>\<open>requests.get\<close> raises, \<open>NotJson\<close> when \<^verbatim>\<open>.json()\<close> raises.
\<close>

datatype 'a reply = NoResponse | NotJson | Json 'a

datatype mkdir_outcome = Created | FileExists | MkdirError

text \<open>
  The world outside the program is a state of any type \<open>'w\<close>; each call that leaves the
  program takes the world and returns its outcome and the new world. The constants of
  the absent module \<^verbatim>\<open>constants\<close> and the collaborators of \<^verbatim>\<open>utils\<close> and
  \<^verbatim>\<open>pathvalidate\<close> are parameters: a collaborator answers \<open>None\<close> when it returns
  and \<open>Some e\<close> when it raises \<open>e\<close>.
\<close>

record 'w ops =
  CURRICULUM_URL :: "int \<Rightarrow> string"
  LECTURE_URL :: "int \<Rightarrow> int \<Rightarrow> string"
  sanitize_filename :: "string \<Rightarrow> string"
  get_page_json :: "string \<Rightarrow> 'w \<Rightarrow> page reply \<times> 'w"
  get_lecture_json :: "string \<Rightarrow> 'w \<Rightarrow> lect_info reply \<times> 'w"
  makedirs :: "string \<Rightarrow> 'w \<Rightarrow> mkdir_outcome \<times> 'w"
  download_captions ::
    "caption list \<Rightarrow> string \<Rightarrow> string \<Rightarrow> string list \<Rightarrow> 'w \<Rightarrow> exn option \<times> 'w"
  process_supplementary_assets ::
    "asset list \<Rightarrow> string \<Rightarrow> int \<Rightarrow> int \<Rightarrow> 'w \<Rightarrow> exn option \<times> 'w"
  download_and_merge_m3u8 :: "string \<Rightarrow> string \<Rightarrow> string \<Rightarrow> 'w \<Rightarrow> exn option \<times> 'w"
  download_and_merge_mpd ::
    "string \<Rightarrow> string \<Rightarrow> string \<Rightarrow> string option \<Rightarrow> 'w \<Rightarrow> exn option \<times> 'w"

text \<open>
  A piece of program is a function from the world to its result (\<open>Inl\<close> an exception
  that leaves it), the events it emitted, in order, and the new world.
\<close>

type_synonym ('w, 'a) prog = "'w \<Rightarrow> (exn + 'a) \<times> event list \<times> 'w"

definition skip :: "('w, unit) prog" where
  "skip w = (Inr (), [], w)"

definition logger :: "level \<Rightarrow> msg \<Rightarrow> ('w, unit) prog" where
  "logger l m w = (Inr (), [Log l m], w)"

definition raise :: "exn \<Rightarrow> ('w, 'a) prog" where
  "raise e w = (Inl e, [], w)"

text \<open>\<open>seq m f\<close> runs \<open>m\<close>, then \<open>f\<close> on its result; an exception of \<open>m\<close> skips \<open>f\<close>.\<close>

definition seq :: "('w, 'a) prog \<Rightarrow> ('a \<Rightarrow> ('w, 'b) prog) \<Rightarrow> ('w, 'b) prog" where
  "seq m f w =
     (case m w of
        (Inl e, es, w1) \<Rightarrow> (Inl e, es, w1)
      | (Inr a, es, w1) \<Rightarrow> (case f a w1 of (r, es2, w2) \<Rightarrow> (r, es @ es2, w2)))"

text \<open>A call to a collaborator: the event records the call, the parameter decides its outcome.\<close>

definition call :: "event \<Rightarrow> ('w \<Rightarrow> exn option \<times> 'w) \<Rightarrow> ('w, unit) prog" where
  "call ev f w =
     (case f w of (None, w1) \<Rightarrow> (Inr (), [ev], w1) | (Some e, w1) \<Rightarrow> (Inl e, [ev], w1))"

subsection \<open>Python library functions the code calls\<close>

text \<open>\<^verbatim>\<open>str(n)\<close> for an integer: decimal digits, with a minus sign when negative.\<close>

definition digit_char :: "nat \<Rightarrow> char" where
  "digit_char d = ''0123456789'' ! d"

function str_nat :: "nat \<Rightarrow> string" where
  "str_nat n = (if n < 10 then [digit_char n] else str_nat (n div 10) @ [digit_char (n mod 10)])"
  by pat_completeness auto
termination
  by (relation "measure (\<lambda>n. n)") auto

declare str_nat.simps [simp del]

definition str_int :: "int \<Rightarrow> string" where
  "str_int i = (if i < 0 then CHR ''-'' # str_nat (nat (- i)) else str_nat (nat i))"

text \<open>\<^verbatim>\<open>os.path.join(a, b)\<close> as \<^verbatim>\<open>posixpath\<close> defines it for two arguments.\<close>

definition path_join :: "string \<Rightarrow> string \<Rightarrow> string" where
  "path_join a b =
     (if take 1 b = ''/'' then b
      else if a = [] \<or> last a = CHR ''/'' then a @ b
      else a @ ''/'' @ b)"

text \<open>\<^verbatim>\<open>s.split(",")\<close>: the pieces between the separators, empty pieces kept.\<close>

fun split_on :: "char \<Rightarrow> string \<Rightarrow> string list" where
  "split_on c [] = [[]]"
| "split_on c (x # xs) =
     (if x = c then [] # split_on c xs
      else (case split_on c xs of w # ws \<Rightarrow> (x # w) # ws | [] \<Rightarrow> [[x]]))"

section \<open>API client\<close>

text \<open>
  \<^verbatim>\<open>Udemy.request\<close> (lines 33 to 38) catches every exception of \<^verbatim>\<open>requests.get\<close>,
  logs it and returns \<^verbatim>\<open>None\<close>; the caller's \<^verbatim>\<open>.json()\<close> then raises.
\<close>

definition request ::
  "(string \<Rightarrow> 'w \<Rightarrow> 'a reply \<times> 'w) \<Rightarrow> string \<Rightarrow> 'w \<Rightarrow> 'a reply \<times> event list \<times> 'w" where
  "request get url w =
     (case get url w of
        (NoResponse, w1) \<Rightarrow> (NoResponse, [HttpGet url, Log CRITICAL ServerUnreachable], w1)
      | (r, w1) \<Rightarrow> (r, [HttpGet url], w1))"

section \<open>Curriculum organizer\<close>

text \<open>
  \<^verbatim>\<open>organize_curriculum\<close> (lines 109 to 138). The loop keeps the list
  \<^verbatim>\<open>curriculum\<close>, the counter \<^verbatim>\<open>total_lectures\<close> and the variable
  \<^verbatim>\<open>current_chapter\<close>, which is either \<^verbatim>\<open>None\<close> or a reference to a dict that
  has been appended to \<^verbatim>\<open>curriculum\<close>: appending to its children changes the list
  element. The reference is the element's index here.
\<close>

record org_state =
  curriculum :: "chapter list"
  current_chapter :: "nat option"
  total_lectures :: nat
  org_log :: "event list"

definition org_init :: org_state where
  "org_init = \<lparr>curriculum = [], current_chapter = None, total_lectures = 0, org_log = []\<rparr>"

definition new_chapter :: "item \<Rightarrow> chapter" where
  "new_chapter it =
     \<lparr>c_id = i_id it, c_title = i_title it, c_description = i_description it,
      c_is_published = i_is_published it, children = []\<rparr>"

definition append_child :: "item \<Rightarrow> chapter \<Rightarrow> chapter" where
  "append_child it c = c\<lparr>children := children c @ [it]\<rparr>"

definition organize_step :: "org_state \<Rightarrow> item \<Rightarrow> org_state" where
  "organize_step s it =
     (if i_class it = ''chapter'' then
        s\<lparr>curriculum := curriculum s @ [new_chapter it],
          current_chapter := Some (length (curriculum s))\<rparr>
      else if i_class it \<in> set [''lecture'', ''practice''] then
        (case current_chapter s of
           Some k \<Rightarrow>
             (let s' = s\<lparr>curriculum := (curriculum s)[k := append_child it (curriculum s ! k)]\<rparr>
              in if i_class it = ''lecture''
                 then s'\<lparr>total_lectures := total_lectures s' + 1\<rparr> else s')
         | None \<Rightarrow> s\<lparr>org_log := org_log s @ [Log WARNING OrphanItem]\<rparr>)
      else s)"

fun organize_loop :: "org_state \<Rightarrow> item list \<Rightarrow> org_state" where
  "organize_loop s [] = s"
| "organize_loop s (it # results) = organize_loop (organize_step s it) results"

text \<open>The function returns the curriculum; what it logs is returned beside it.\<close>

definition organize_curriculum :: "item list \<Rightarrow> chapter list \<times> event list" where
  "organize_curriculum results =
     (let s = organize_loop org_init results;
          num_chapters = length (curriculum s)
      in (curriculum s,
          org_log s @ [Log INFO (DiscoveredChapters num_chapters),
                       Log INFO (DiscoveredLectures (total_lectures s))]))"

text \<open>The class tests of the loop, and a chapter without its children.\<close>

definition is_chapter :: "item \<Rightarrow> bool" where
  "is_chapter it = (i_class it = ''chapter'')"

definition is_lecture :: "item \<Rightarrow> bool" where
  "is_lecture it = (i_class it = ''lecture'')"

definition is_child :: "item \<Rightarrow> bool" where
  "is_child it = (i_class it = ''lecture'' \<or> i_class it = ''practice'')"

definition shell :: "chapter \<Rightarrow> chapter" where
  "shell c = c\<lparr>children := []\<rparr>"

text \<open>
  The invariant of the loop: \<^verbatim>\<open>current_chapter\<close> is \<^verbatim>\<open>None\<close> until the first
  chapter, and then refers to the last element of \<^verbatim>\<open>curriculum\<close>.
\<close>

definition org_inv :: "org_state \<Rightarrow> bool" where
  "org_inv s = (current_chapter s =
      (if curriculum s = [] then None else Some (length (curriculum s) - 1)))"

text \<open>An item for examples: class tag, id and title, the other fields fixed.\<close>

definition ex_item :: "string \<Rightarrow> int \<Rightarrow> string \<Rightarrow> item" where
  "ex_item cl n t =
     \<lparr>i_class = cl, i_id = n, i_title = t, i_description = [], i_is_published = True,
      i_is_free = False, i_supplementary_assets = []\<rparr>"

section \<open>Curriculum fetcher\<close>

text \<open>
  The \<^verbatim>\<open>while url:\<close> loop of \<^verbatim>\<open>fetch_course_curriculum\<close> (lines 90 to 105). The
  loop variables are \<^verbatim>\<open>url\<close>, \<^verbatim>\<open>total_count\<close> and \<^verbatim>\<open>all_results\<close>;
  \<open>es\<close> collects the events so far. Nothing bounds the number of pages, so the loop is
  a partial function: \<open>None\<close> is a run that never leaves the loop. A \<^verbatim>\<open>None\<close> or
  empty \<^verbatim>\<open>url\<close> is false in Python and ends the loop. \<^verbatim>\<open>.json()\<close> is called on
  what \<^verbatim>\<open>request\<close> returned, so both a failed request and a body that is not JSON
  raise out of the function.
\<close>

partial_function (option) fetch_loop ::
  "'w ops \<Rightarrow> string option \<Rightarrow> int \<Rightarrow> item list \<Rightarrow> event list \<Rightarrow> 'w \<Rightarrow>
   ((exn + item list \<times> int) \<times> event list \<times> 'w) option" where
  "fetch_loop ops url total_count all_results es w =
     (case url of
        None \<Rightarrow> Some (Inr (all_results, total_count), es, w)
      | Some u \<Rightarrow>
          if u = [] then Some (Inr (all_results, total_count), es, w)
          else
            (case request (get_page_json ops) u w of
               (NoResponse, es1, w1) \<Rightarrow> Some (Inl Raised, es @ es1, w1)
             | (NotJson, es1, w1) \<Rightarrow> Some (Inl Raised, es @ es1, w1)
             | (Json response, es1, w1) \<Rightarrow>
                 if p_detail response = Some ''Not found.''
                 then Some (Inl (SystemExit 1), es @ es1 @ [Log CRITICAL CurriculumNotFound], w1)
                 else
                   (let total_count' =
                          (if total_count = 0
                           then (case p_count response of None \<Rightarrow> 0 | Some c \<Rightarrow> c)
                           else total_count);
                        es2 = (if total_count = 0 then [ProgressTotal total_count'] else []);
                        results = (case p_results response of None \<Rightarrow> [] | Some rs \<Rightarrow> rs);
                        all_results' = all_results @ results
                    in fetch_loop ops (p_next response) total_count' all_results'
                         (es @ es1 @ es2 @ [ProgressCompleted (length all_results')]) w1)))"

definition fetch_course_curriculum ::
  "'w ops \<Rightarrow> int \<Rightarrow> 'w \<Rightarrow> ((exn + chapter list) \<times> event list \<times> 'w) option" where
  "fetch_course_curriculum ops course_id w =
     (case fetch_loop ops (Some (CURRICULUM_URL ops course_id)) 0 []
             [Log INFO FetchingCurriculum, ProgressAddTask 0] w of
        None \<Rightarrow> None
      | Some (Inl e, es, w1) \<Rightarrow> Some (Inl e, es, w1)
      | Some (Inr (all_results, total_count), es, w1) \<Rightarrow>
          (case organize_curriculum all_results of
             (cur, lg) \<Rightarrow> Some (Inr cur, es @ lg, w1)))"

text \<open>The count a page reports (\<^verbatim>\<open>response.get('count', 0)\<close>) and the items it holds.\<close>

definition page_count :: "page \<Rightarrow> int" where
  "page_count p = (case p_count p of None \<Rightarrow> 0 | Some c \<Rightarrow> c)"

definition page_results :: "page \<Rightarrow> item list" where
  "page_results p = (case p_results p of None \<Rightarrow> [] | Some rs \<Rightarrow> rs)"

text \<open>
  A chain of pages: asked for \<open>u\<close> in world \<open>w\<close> the server answers with the first
  page, whose cursor leads to the rest of the chain in the world that follows; the last
  page has no cursor. No page of a chain carries the not-found marker.
\<close>

fun serves :: "'w ops \<Rightarrow> string \<Rightarrow> 'w \<Rightarrow> page list \<Rightarrow> bool" where
  "serves ops u w [] = False"
| "serves ops u w (p # ps) =
     (u \<noteq> [] \<and> fst (get_page_json ops u w) = Json p \<and> p_detail p \<noteq> Some ''Not found.'' \<and>
      (case ps of
         [] \<Rightarrow> (case p_next p of None \<Rightarrow> True | Some u' \<Rightarrow> u' = [])
       | _ # _ \<Rightarrow>
           (case p_next p of
              None \<Rightarrow> False
            | Some u' \<Rightarrow> serves ops u' (snd (get_page_json ops u w)) ps)))"

text \<open>The first count of a list that is not 0, and 0 when there is none.\<close>

fun first_nonzero :: "int list \<Rightarrow> int" where
  "first_nonzero [] = 0"
| "first_nonzero (c # cs) = (if c = 0 then first_nonzero cs else c)"

definition is_http_get :: "event \<Rightarrow> bool" where
  "is_http_get e = (case e of HttpGet _ \<Rightarrow> True | _ \<Rightarrow> False)"

text \<open>
  The counts the loop reads when it starts with \<^verbatim>\<open>total_count == 0\<close>: each page's
  count up to the first that is not 0.
\<close>

fun counts_read :: "int list \<Rightarrow> int list" where
  "counts_read [] = []"
| "counts_read (c # cs) = c # (if c = 0 then counts_read cs else [])"

definition is_progress_total :: "event \<Rightarrow> bool" where
  "is_progress_total e = (case e of ProgressTotal _ \<Rightarrow> True | _ \<Rightarrow> False)"

section \<open>Download orchestrator\<close>

text \<open>
  The globals that \<^verbatim>\<open>download_course\<close> and \<^verbatim>\<open>process_lecture\<close> read:
  \<^verbatim>\<open>key\<close>, \<^verbatim>\<open>captions\<close> and \<^verbatim>\<open>COURSE_DIR\<close>.
\<close>

record globals =
  g_key :: "string option"
  g_captions :: "string list"
  g_COURSE_DIR :: string

text \<open>\<^verbatim>\<open>create_directory\<close> (lines 147 to 155).\<close>

definition create_directory :: "'w ops \<Rightarrow> string \<Rightarrow> ('w, unit) prog" where
  "create_directory ops path w =
     (case makedirs ops path w of
        (Created, w1) \<Rightarrow> (Inr (), [Makedirs path], w1)
      | (FileExists, w1) \<Rightarrow>
          (Inr (), [Makedirs path, Log WARNING (DirectoryExists path)], w1)
      | (MkdirError, w1) \<Rightarrow>
          (Inl (SystemExit 1), [Makedirs path, Log ERROR (CreateDirectoryFailed path)], w1))"

text \<open>\<^verbatim>\<open>fetch_lecture_info\<close> (lines 140 to 145): every exception becomes \<^verbatim>\<open>sys.exit(1)\<close>.\<close>

definition fetch_lecture_info :: "'w ops \<Rightarrow> int \<Rightarrow> int \<Rightarrow> ('w, lect_info) prog" where
  "fetch_lecture_info ops course_id lecture_id w =
     (case request (get_lecture_json ops) (LECTURE_URL ops course_id lecture_id) w of
        (Json info, es, w1) \<Rightarrow> (Inr info, es, w1)
      | (_, es, w1) \<Rightarrow> (Inl (SystemExit 1), es @ [Log CRITICAL FetchLectureInfoFailed], w1))"

text \<open>
  \<^verbatim>\<open>next((item['src'] for item in media_sources if item['type'] == t), None)\<close>.
\<close>

fun first_src :: "string \<Rightarrow> media_source list \<Rightarrow> string option" where
  "first_src t [] = None"
| "first_src t (item # rest) = (if ms_type item = t then Some (ms_src item) else first_src t rest)"

text \<open>The f-string \<^verbatim>\<open>f"{lindex}. {sanitize_filename(lecture['title'])}"\<close>.\<close>

definition numbered :: "'w ops \<Rightarrow> nat \<Rightarrow> string \<Rightarrow> string" where
  "numbered ops n t = str_int (int n) @ ''. '' @ sanitize_filename ops t"

text \<open>Lines 169 to 171 and 173 to 175 of \<^verbatim>\<open>process_lecture\<close>.\<close>

definition captions_stage ::
  "'w ops \<Rightarrow> globals \<Rightarrow> item \<Rightarrow> lect_info \<Rightarrow> string \<Rightarrow> nat \<Rightarrow> ('w, unit) prog" where
  "captions_stage ops g lecture lect_info folder_path lindex =
     (if length (li_captions lect_info) > 0 then
        seq (logger INFO (DownloadingCaptions (length (li_captions lect_info)))) (\<lambda>_.
          call (DownloadCaptions (li_captions lect_info) folder_path
                  (numbered ops lindex (i_title lecture)) (g_captions g))
               (download_captions ops (li_captions lect_info) folder_path
                  (numbered ops lindex (i_title lecture)) (g_captions g)))
      else skip)"

definition assets_stage ::
  "'w ops \<Rightarrow> item \<Rightarrow> lect_info \<Rightarrow> int \<Rightarrow> string \<Rightarrow> ('w, unit) prog" where
  "assets_stage ops lecture lect_info course_id folder_path =
     (if length (i_supplementary_assets lecture) > 0 then
        seq (logger INFO (DownloadingAssets (length (i_supplementary_assets lecture)))) (\<lambda>_.
          call (ProcessAssets (i_supplementary_assets lecture) folder_path course_id
                  (li_id lect_info))
               (process_supplementary_assets ops (i_supplementary_assets lecture) folder_path
                  course_id (li_id lect_info)))
      else skip)"

text \<open>Lines 177 to 195 of \<^verbatim>\<open>process_lecture\<close>: the choice of the media source.\<close>

definition media_stage ::
  "'w ops \<Rightarrow> item \<Rightarrow> lect_info \<Rightarrow> string \<Rightarrow> nat \<Rightarrow> string option \<Rightarrow> ('w, unit) prog" where
  "media_stage ops lecture lect_info temp_folder_path lindex key =
     (if i_is_free lecture then
        (case first_src ''application/x-mpegURL'' (li_media_sources lect_info) of
           None \<Rightarrow> logger ERROR (M3U8Missing (i_title lecture))
         | Some m3u8_url \<Rightarrow>
             call (DownloadM3U8 m3u8_url temp_folder_path (numbered ops lindex (i_title lecture)))
                  (download_and_merge_m3u8 ops m3u8_url temp_folder_path
                     (numbered ops lindex (i_title lecture))))
      else
        (let mpd_url = first_src ''application/dash+xml'' (li_media_sources lect_info);
             mp4_url = first_src ''video/mp4'' (li_media_sources lect_info)
         in case mpd_url of
              None \<Rightarrow>
                (case mp4_url of
                   None \<Rightarrow> logger ERROR (MPDMissing (i_title lecture))
                 | Some _ \<Rightarrow> logger ERROR Mp4NotSupported)
            | Some u \<Rightarrow>
                seq (if key = None then logger WARNING DrmProtected else skip) (\<lambda>_.
                  call (DownloadMPD u temp_folder_path (numbered ops lindex (i_title lecture)) key)
                       (download_and_merge_mpd ops u temp_folder_path
                          (numbered ops lindex (i_title lecture)) key))))"

text \<open>
  \<^verbatim>\<open>process_lecture\<close> (lines 160 to 198). \<open>chapter\<close> is the variable of the
  enclosing loop, which the function reads for its log line.
\<close>

definition process_lecture ::
  "'w ops \<Rightarrow> globals \<Rightarrow> chapter \<Rightarrow> item \<Rightarrow> int \<Rightarrow> string \<Rightarrow> nat \<Rightarrow> string option \<Rightarrow>
   ('w, unit) prog" where
  "process_lecture ops g chap lecture course_id folder_path lindex key =
     (let temp_folder_path = path_join folder_path (str_int (i_id lecture)) in
      seq (create_directory ops temp_folder_path) (\<lambda>_.
        if i_class lecture = ''lecture'' then
          seq (fetch_lecture_info ops course_id (i_id lecture)) (\<lambda>lect_info.
          seq (logger INFO (DownloadingLecture (i_title lecture) lindex (length (children chap)))) (\<lambda>_.
          seq (captions_stage ops g lecture lect_info folder_path lindex) (\<lambda>_.
          seq (assets_stage ops lecture lect_info course_id folder_path) (\<lambda>_.
          media_stage ops lecture lect_info temp_folder_path lindex key))))
        else skip))"

text \<open>
  \<^verbatim>\<open>download_course\<close> (lines 200 to 215). The pool is created with
  \<^verbatim>\<open>max_workers=1\<close>: its single worker thread runs the submitted tasks one after the
  other in the order of submission, and an exception that leaves a task (a
  \<^verbatim>\<open>SystemExit\<close> too) is stored in the task's future, so the tasks behind it still
  run. \<^verbatim>\<open>future.result()\<close> raises the stored exception in the main thread; leaving
  the \<^verbatim>\<open>with\<close> block waits for the tasks still queued. The main thread emits nothing
  between the submission of a chapter's tasks and the last result, so the events of a
  run are in one order only. \<open>run_tasks\<close> is the worker on one chapter's tasks and
  returns what each future holds; \<open>collect\<close> is the loop over
  \<^verbatim>\<open>future.result()\<close>.
\<close>

fun run_tasks ::
  "'w ops \<Rightarrow> globals \<Rightarrow> chapter \<Rightarrow> int \<Rightarrow> string \<Rightarrow> string option \<Rightarrow> nat \<Rightarrow> item list \<Rightarrow> 'w \<Rightarrow>
   (exn + unit) list \<times> event list \<times> 'w" where
  "run_tasks ops g chap course_id folder_path key lindex [] w = ([], [], w)"
| "run_tasks ops g chap course_id folder_path key lindex (lecture # rest) w =
     (case process_lecture ops g chap lecture course_id folder_path lindex key w of
        (r, es, w1) \<Rightarrow>
          (case run_tasks ops g chap course_id folder_path key (lindex + 1) rest w1 of
             (rs, es2, w2) \<Rightarrow> (r # rs, es @ es2, w2)))"

fun collect :: "(exn + unit) list \<Rightarrow> exn option" where
  "collect [] = None"
| "collect (Inl e # futures) = Some e"
| "collect (Inr _ # futures) = collect futures"

fun download_chapters ::
  "'w ops \<Rightarrow> globals \<Rightarrow> int \<Rightarrow> nat \<Rightarrow> nat \<Rightarrow> chapter list \<Rightarrow> ('w, unit) prog" where
  "download_chapters ops g course_id n mindex [] w = (Inr (), [], w)"
| "download_chapters ops g course_id n mindex (chap # rest) w =
     (let ev = Log INFO (DownloadingChapter (c_title chap) mindex n);
          folder_path = path_join (g_COURSE_DIR g) (numbered ops mindex (c_title chap))
      in case run_tasks ops g chap course_id folder_path (g_key g) 1 (children chap) w of
           (futures, es, w1) \<Rightarrow>
             (case collect futures of
                Some e \<Rightarrow> (Inl e, ev # es, w1)
              | None \<Rightarrow>
                  (case download_chapters ops g course_id n (mindex + 1) rest w1 of
                     (r, es2, w2) \<Rightarrow> (r, ev # es @ es2, w2))))"

definition download_course :: "'w ops \<Rightarrow> globals \<Rightarrow> int \<Rightarrow> chapter list \<Rightarrow> ('w, unit) prog" where
  "download_course ops g course_id curric w =
     (case download_chapters ops g course_id (length curric) 1 curric w of
        (r, es, w1) \<Rightarrow> (r, ThreadPoolExecutor 1 # es, w1))"

text \<open>
  The command line as \<^verbatim>\<open>main\<close> reads it for the download: \<^verbatim>\<open>--key\<close>,
  \<^verbatim>\<open>--threads\<close> (default 4) and \<^verbatim>\<open>--captions\<close>.
\<close>

record args =
  a_key :: "string option"
  a_threads :: int
  a_captions :: "string option"

text \<open>
  The lines of \<^verbatim>\<open>main\<close> that set the globals and start the download (263, 271 to
  273, 288 to 294, 346 to 351). The lines between them compute \<^verbatim>\<open>COURSE_DIR\<close>,
  \<^verbatim>\<open>course_id\<close> and \<^verbatim>\<open>course_curriculum\<close>, which are parameters here.
\<close>

definition main_download ::
  "'w ops \<Rightarrow> args \<Rightarrow> string \<Rightarrow> int \<Rightarrow> chapter list \<Rightarrow> ('w, unit) prog" where
  "main_download ops a course_dir course_id course_curriculum =
     (if (case a_key a of None \<Rightarrow> False | Some k \<Rightarrow> CHR '':'' \<notin> set k)
      then logger ERROR KeyMalformed
      else
        (let captions = (case a_captions a of
                           None \<Rightarrow> [''en_US'']
                         | Some c \<Rightarrow> if c = [] then [''en_US''] else split_on CHR '','' c)
         in seq (logger INFO DownloadStarting) (\<lambda>_.
            seq (download_course ops
                   \<lparr>g_key = a_key a, g_captions = captions, g_COURSE_DIR = course_dir\<rparr>
                   course_id course_curriculum) (\<lambda>_.
            seq (logger INFO AllDownloaded) (\<lambda>_. logger INFO DownloadComplete)))))"

section \<open>The json module\<close>

text \<open>
  \<^verbatim>\<open>main\<close> keeps the curriculum in a file with \<^verbatim>\<open>json.dump(course_curriculum, f, indent=4)\<close>
  and reads it with \<^verbatim>\<open>json.load\<close>. Both are modelled here from the documentation of the
  standard library and from its Python implementation (\<^verbatim>\<open>json/encoder.py\<close>,
  \<^verbatim>\<open>json/decoder.py\<close>, \<^verbatim>\<open>json/scanner.py\<close>).

  A \<open>json\<close> is a Python value that \<^verbatim>\<open>json.load\<close> can return: \<^verbatim>\<open>None\<close>, a bool, an
  int, a str, a list, or a dict with str keys, which is an association list in insertion
  order here. As everywhere in this theory a str is a \<open>string\<close>, so its characters are the
  code points below 256. Floats are not in the type: a text with a fraction, an exponent,
  \<^verbatim>\<open>NaN\<close> or \<^verbatim>\<open>Infinity\<close>, or with an escape for a code point from 256 on, has no value in
  this model, and \<open>json_loads\<close> answers \<open>None\<close> for it as for a malformed text.
\<close>

datatype json =
    JNull
  | JBool bool
  | JInt int
  | JStr string
  | JArr "json list"
  | JObj "(string \<times> json) list"


subsection \<open>The encoder\<close>

text \<open>
  \<^verbatim>\<open>encode_basestring_ascii\<close> (\<^verbatim>\<open>ensure_ascii\<close> is true by default): the quote and the
  backslash are escaped by a backslash, backspace, form feed, newline, carriage return and
  tab by their letter, the other characters from space to tilde stand for themselves, and
  every other character is written as backslash, \<^verbatim>\<open>u\<close> and four lower-case hexadecimal
  digits.
\<close>

definition hex_digit :: "nat \<Rightarrow> char" where
  "hex_digit d = ''0123456789abcdef'' ! d"

definition encode_char :: "char \<Rightarrow> string" where
  "encode_char c =
     (if c = CHR 0x22 then [CHR 0x5C, CHR 0x22]
      else if c = CHR 0x5C then [CHR 0x5C, CHR 0x5C]
      else if c = CHR 0x08 then [CHR 0x5C, CHR ''b'']
      else if c = CHR 0x0C then [CHR 0x5C, CHR ''f'']
      else if c = CHR 0x0A then [CHR 0x5C, CHR ''n'']
      else if c = CHR 0x0D then [CHR 0x5C, CHR ''r'']
      else if c = CHR 0x09 then [CHR 0x5C, CHR ''t'']
      else if 0x20 \<le> (of_char c :: nat) \<and> (of_char c :: nat) \<le> 0x7E then [c]
      else [CHR 0x5C, CHR ''u'', CHR ''0'', CHR ''0'',
            hex_digit ((of_char c :: nat) div 16), hex_digit ((of_char c :: nat) mod 16)])"

definition encode_basestring_ascii :: "string \<Rightarrow> string" where
  "encode_basestring_ascii s = CHR 0x22 # concat (map encode_char s) @ [CHR 0x22]"

text \<open>
  With \<^verbatim>\<open>indent=4\<close> an item of a list or dict starts on a line of its own, indented by
  four spaces for each level; the item separator is a comma and the key separator a colon
  and a space. An empty list is \<^verbatim>\<open>[]\<close> and an empty dict \<^verbatim>\<open>{}\<close>. A dict is written
  in insertion order (\<^verbatim>\<open>sort_keys\<close> is false).
\<close>

definition newline_indent :: "nat \<Rightarrow> string" where
  "newline_indent level = CHR 0x0A # replicate (4 * level) CHR '' ''"

fun join_with :: "string \<Rightarrow> string list \<Rightarrow> string" where
  "join_with sep [] = []"
| "join_with sep [t] = t"
| "join_with sep (t # u # us) = t @ sep @ join_with sep (u # us)"

fun iterencode :: "nat \<Rightarrow> json \<Rightarrow> string" where
  "iterencode level JNull = ''null''"
| "iterencode level (JBool b) = (if b then ''true'' else ''false'')"
| "iterencode level (JInt i) = str_int i"
| "iterencode level (JStr s) = encode_basestring_ascii s"
| "iterencode level (JArr xs) =
     (if xs = [] then ''[]''
      else ''['' @ newline_indent (Suc level) @
           join_with ('','' @ newline_indent (Suc level)) (map (iterencode (Suc level)) xs) @
           newline_indent level @ '']'')"
| "iterencode level (JObj kvs) =
     (if kvs = [] then ''{}''
      else ''{'' @ newline_indent (Suc level) @
           join_with ('','' @ newline_indent (Suc level))
             (map (\<lambda>(k, v). encode_basestring_ascii k @ '': '' @ iterencode (Suc level) v) kvs) @
           newline_indent level @ ''}'')"

text \<open>The text that \<^verbatim>\<open>json.dump(obj, f, indent=4)\<close> writes to \<^verbatim>\<open>f\<close>.\<close>

definition json_dumps :: "json \<Rightarrow> string" where
  "json_dumps obj = iterencode 0 obj"

subsection \<open>The decoder\<close>

text \<open>White space is space, tab, newline and carriage return.\<close>

definition is_ws :: "char \<Rightarrow> bool" where
  "is_ws c = (c = CHR '' '' \<or> c = CHR 0x09 \<or> c = CHR 0x0A \<or> c = CHR 0x0D)"

definition skip_ws :: "string \<Rightarrow> string" where
  "skip_ws s = dropWhile is_ws s"

definition is_digit :: "char \<Rightarrow> bool" where
  "is_digit c = (48 \<le> (of_char c :: nat) \<and> (of_char c :: nat) \<le> 57)"

definition hex_value :: "char \<Rightarrow> nat option" where
  "hex_value c =
     (let n = (of_char c :: nat) in
      if 48 \<le> n \<and> n \<le> 57 then Some (n - 48)
      else if 97 \<le> n \<and> n \<le> 102 then Some (n - 87)
      else if 65 \<le> n \<and> n \<le> 70 then Some (n - 55)
      else None)"

definition hex4 :: "char \<Rightarrow> char \<Rightarrow> char \<Rightarrow> char \<Rightarrow> nat option" where
  "hex4 a b c d =
     (case (hex_value a, hex_value b, hex_value c, hex_value d) of
        (Some x, Some y, Some z, Some t) \<Rightarrow> Some (4096 * x + 256 * y + 16 * z + t)
      | _ \<Rightarrow> None)"

definition unescape :: "char \<Rightarrow> char option" where
  "unescape e =
     (if e = CHR 0x22 then Some (CHR 0x22)
      else if e = CHR 0x5C then Some (CHR 0x5C)
      else if e = CHR ''/'' then Some (CHR ''/'')
      else if e = CHR ''b'' then Some (CHR 0x08)
      else if e = CHR ''f'' then Some (CHR 0x0C)
      else if e = CHR ''n'' then Some (CHR 0x0A)
      else if e = CHR ''r'' then Some (CHR 0x0D)
      else if e = CHR ''t'' then Some (CHR 0x09)
      else None)"

text \<open>
  \<^verbatim>\<open>scanstring\<close>, called after the opening quote: it reads up to the closing quote and
  returns the string and the rest of the text. A control character (below 32) in the text
  is an error (\<^verbatim>\<open>strict\<close> is true by default), and so are an unknown escape, an escape
  without four hexadecimal digits, and the end of the text before the closing quote.
\<close>

fun scanstring :: "string \<Rightarrow> (string \<times> string) option" where
  "scanstring [] = None"
| "scanstring (c # cs) =
     (if c = CHR 0x22 then Some ([], cs)
      else if c = CHR 0x5C then
        (case cs of
           [] \<Rightarrow> None
         | e # r \<Rightarrow>
             if e = CHR ''u'' then
               (case r of
                  a # b # x # y # r' \<Rightarrow>
                    (case hex4 a b x y of
                       None \<Rightarrow> None
                     | Some k \<Rightarrow>
                         if k < 256 then
                           (case scanstring r' of
                              None \<Rightarrow> None
                            | Some (t, rest) \<Rightarrow> Some (char_of k # t, rest))
                         else None)
                | _ \<Rightarrow> None)
             else
               (case unescape e of
                  None \<Rightarrow> None
                | Some x \<Rightarrow>
                    (case scanstring r of
                       None \<Rightarrow> None
                     | Some (t, rest) \<Rightarrow> Some (x # t, rest))))
      else if (of_char c :: nat) < 0x20 then None
      else (case scanstring cs of
              None \<Rightarrow> None
            | Some (t, rest) \<Rightarrow> Some (c # t, rest)))"

text \<open>
  The integer part of a number: an optional minus sign, then a single zero or a digit from
  one to nine followed by any digits. What follows it is left in the rest of the text.
\<close>

definition nat_of_digits :: "string \<Rightarrow> nat" where
  "nat_of_digits ds = foldl (\<lambda>a c. 10 * a + ((of_char c :: nat) - 48)) 0 ds"

definition scan_nat :: "string \<Rightarrow> (nat \<times> string) option" where
  "scan_nat s =
     (case s of
        [] \<Rightarrow> None
      | c # r \<Rightarrow>
          if c = CHR ''0'' then Some (0, r)
          else if is_digit c then Some (nat_of_digits (takeWhile is_digit s), dropWhile is_digit s)
          else None)"

definition scan_int :: "string \<Rightarrow> (int \<times> string) option" where
  "scan_int s =
     (case s of
        [] \<Rightarrow> None
      | c # r \<Rightarrow>
          if c = CHR ''-'' then
            (case scan_nat r of None \<Rightarrow> None | Some (k, rest) \<Rightarrow> Some (- int k, rest))
          else
            (case scan_nat s of None \<Rightarrow> None | Some (k, rest) \<Rightarrow> Some (int k, rest)))"

text \<open>
  \<^verbatim>\<open>dict(pairs)\<close>: a key that comes again keeps its place and takes the later value.
\<close>

fun dict_set :: "(string \<times> json) list \<Rightarrow> string \<Rightarrow> json \<Rightarrow> (string \<times> json) list" where
  "dict_set [] k v = [(k, v)]"
| "dict_set ((k', v') # d) k v = (if k' = k then (k', v) # d else (k', v') # dict_set d k v)"

definition py_dict :: "(string \<times> json) list \<Rightarrow> (string \<times> json) list" where
  "py_dict pairs = foldl (\<lambda>d (k, v). dict_set d k v) [] pairs"

text \<open>
  \<^verbatim>\<open>scan_once\<close> reads one value at the start of the text; \<open>parse_array_items\<close> is the
  loop of \<^verbatim>\<open>JSONArray\<close> after the opening bracket, when the list is not empty, and
  \<open>parse_object_pairs\<close> the loop of \<^verbatim>\<open>JSONObject\<close> after the opening brace, when the
  dict is not empty. Each returns what it read and the rest of the text, or \<open>None\<close> where
  the library raises \<^verbatim>\<open>JSONDecodeError\<close>. The three call each other as deep as the text
  is nested; the first argument bounds that depth, and running out of it is \<open>None\<close> too.
\<close>

fun scan_once :: "nat \<Rightarrow> string \<Rightarrow> (json \<times> string) option"
  and parse_array_items :: "nat \<Rightarrow> string \<Rightarrow> (json list \<times> string) option"
  and parse_object_pairs :: "nat \<Rightarrow> string \<Rightarrow> ((string \<times> json) list \<times> string) option" where
  "scan_once 0 s = None"
| "scan_once (Suc fuel) s =
     (case s of
        [] \<Rightarrow> None
      | c # r \<Rightarrow>
          if c = CHR 0x22 then
            (case scanstring r of None \<Rightarrow> None | Some (t, rest) \<Rightarrow> Some (JStr t, rest))
          else if c = CHR ''{'' then
            (case skip_ws r of
               [] \<Rightarrow> None
             | c1 # r1 \<Rightarrow>
                 if c1 = CHR ''}'' then Some (JObj [], r1)
                 else (case parse_object_pairs fuel (c1 # r1) of
                         None \<Rightarrow> None
                       | Some (pairs, rest) \<Rightarrow> Some (JObj (py_dict pairs), rest)))
          else if c = CHR ''['' then
            (case skip_ws r of
               [] \<Rightarrow> None
             | c1 # r1 \<Rightarrow>
                 if c1 = CHR '']'' then Some (JArr [], r1)
                 else (case parse_array_items fuel (c1 # r1) of
                         None \<Rightarrow> None
                       | Some (values, rest) \<Rightarrow> Some (JArr values, rest)))
          else if c = CHR ''n'' then
            (if take 3 r = ''ull'' then Some (JNull, drop 3 r) else None)
          else if c = CHR ''t'' then
            (if take 3 r = ''rue'' then Some (JBool True, drop 3 r) else None)
          else if c = CHR ''f'' then
            (if take 4 r = ''alse'' then Some (JBool False, drop 4 r) else None)
          else
            (case scan_int s of None \<Rightarrow> None | Some (i, rest) \<Rightarrow> Some (JInt i, rest)))"
| "parse_array_items 0 s = None"
| "parse_array_items (Suc fuel) s =
     (case scan_once fuel s of
        None \<Rightarrow> None
      | Some (v, r) \<Rightarrow>
          (case skip_ws r of
             [] \<Rightarrow> None
           | c # r1 \<Rightarrow>
               if c = CHR '']'' then Some ([v], r1)
               else if c = CHR '','' then
                 (case parse_array_items fuel (skip_ws r1) of
                    None \<Rightarrow> None
                  | Some (vs, rest) \<Rightarrow> Some (v # vs, rest))
               else None))"
| "parse_object_pairs 0 s = None"
| "parse_object_pairs (Suc fuel) s =
     (case s of
        [] \<Rightarrow> None
      | q # r \<Rightarrow>
          if q \<noteq> CHR 0x22 then None
          else
            (case scanstring r of
               None \<Rightarrow> None
             | Some (k, r1) \<Rightarrow>
                 (case skip_ws r1 of
                    [] \<Rightarrow> None
                  | c # r2 \<Rightarrow>
                      if c \<noteq> CHR '':'' then None
                      else
                        (case scan_once fuel (skip_ws r2) of
                           None \<Rightarrow> None
                         | Some (v, r3) \<Rightarrow>
                             (case skip_ws r3 of
                                [] \<Rightarrow> None
                              | d # r4 \<Rightarrow>
                                  if d = CHR ''}'' then Some ([(k, v)], r4)
                                  else if d = CHR '','' then
                                    (case parse_object_pairs fuel (skip_ws r4) of
                                       None \<Rightarrow> None
                                     | Some (ps, rest) \<Rightarrow> Some ((k, v) # ps, rest))
                                  else None)))))"

text \<open>
  \<^verbatim>\<open>json.load(f)\<close> on a file with the text \<open>s\<close>: white space, one value, white space,
  and nothing more. The depth given is the length of the text, which the decoder does not
  use up on any text the encoder writes.
\<close>

definition json_loads :: "string \<Rightarrow> json option" where
  "json_loads s =
     (case scan_once (Suc (length s)) (skip_ws s) of
        None \<Rightarrow> None
      | Some (obj, rest) \<Rightarrow> if skip_ws rest = [] then Some obj else None)"



section \<open>Curriculum cache\<close>

text \<open>
  The Python value of \<^verbatim>\<open>course_curriculum\<close>: the list of the chapter dicts that
  \<^verbatim>\<open>organize_curriculum\<close> builds (lines 117 to 123, keys in that order), each with its
  children, the items as the server sent them. An item has the keys of the record
  \<open>item\<close>; an asset, which \<^verbatim>\<open>main.py\<close> only hands on, is its one string.
\<close>

definition asset_json :: "asset \<Rightarrow> json" where
  "asset_json a = (case a of Asset s \<Rightarrow> JStr s)"

definition item_json :: "item \<Rightarrow> json" where
  "item_json it =
     JObj [(''_class'', JStr (i_class it)),
           (''id'', JInt (i_id it)),
           (''title'', JStr (i_title it)),
           (''description'', JStr (i_description it)),
           (''is_published'', JBool (i_is_published it)),
           (''is_free'', JBool (i_is_free it)),
           (''supplementary_assets'', JArr (map asset_json (i_supplementary_assets it)))]"

definition chapter_json :: "chapter \<Rightarrow> json" where
  "chapter_json c =
     JObj [(''id'', JInt (c_id c)),
           (''title'', JStr (c_title c)),
           (''description'', JStr (c_description c)),
           (''is_published'', JBool (c_is_published c)),
           (''children'', JArr (map item_json (children c)))]"

definition curriculum_json :: "chapter list \<Rightarrow> json" where
  "curriculum_json cur = JArr (map chapter_json cur)"









text \<open>
  The file system, as far as these lines use it: the regular files and their text. A
  file is named by a path, or by a descriptor: \<^verbatim>\<open>os.path.isfile\<close> and \<^verbatim>\<open>open\<close> take
  an int for an open descriptor, and \<^verbatim>\<open>True\<close> is the int 1.
\<close>

datatype file_name = Path string | Descriptor int

type_synonym files = "file_name \<Rightarrow> string option"

text \<open>
  The value of \<^verbatim>\<open>args.load\<close> and of \<^verbatim>\<open>args.save\<close>. Both options are declared with
  \<^verbatim>\<open>const=True, nargs='?'\<close>: \<^verbatim>\<open>None\<close> when the option is absent, \<^verbatim>\<open>True\<close> when it
  is given without a value, and otherwise the string given. \<^verbatim>\<open>main\<close> tells the three
  apart by truth value and by \<^verbatim>\<open>is True\<close>; an empty string is false.
\<close>

datatype opt_path = Absent | Flag | Given string


text \<open>
  The \<^verbatim>\<open>try\<close> block of lines 305 to 310 and of lines 313 to 318, on the text of the
  file: \<^verbatim>\<open>json.load\<close>, then the log line that names the file; a \<^verbatim>\<open>JSONDecodeError\<close>
  is logged and ends the run with \<^verbatim>\<open>sys.exit(1)\<close>.
\<close>

definition json_load :: "string \<Rightarrow> string \<Rightarrow> (exn + json) \<times> event list" where
  "json_load text shown =
     (case json_loads text of
        Some obj \<Rightarrow> (Inr obj, [Log INFO (CurriculumLoaded shown)])
      | None \<Rightarrow> (Inl (SystemExit 1), [Log ERROR CurriculumMalformed]))"

text \<open>
  The body of \<^verbatim>\<open>if args.load:\<close> (lines 304 to 324), with \<^verbatim>\<open>HOME_DIR\<close> of the absent
  module \<^verbatim>\<open>constants\<close> as the parameter \<open>home\<close>. It returns the curriculum loaded, or
  the exception that leaves it, and the events. With \<^verbatim>\<open>--load\<close> alone the file is
  \<^verbatim>\<open>course.json\<close> in \<^verbatim>\<open>HOME_DIR\<close>; when that is not a file the \<^verbatim>\<open>elif\<close> is taken
  with \<^verbatim>\<open>True\<close> for the path. The last \<^verbatim>\<open>else\<close> is the branch of a false value.
\<close>

definition load_curriculum :: "string \<Rightarrow> opt_path \<Rightarrow> files \<Rightarrow> (exn + json) \<times> event list" where
  "load_curriculum home load fs =
     (case load of
        Flag \<Rightarrow>
          (case fs (Path (path_join home ''course.json'')) of
             Some text \<Rightarrow> json_load text ''course.json''
           | None \<Rightarrow>
               (case fs (Descriptor 1) of
                  Some text \<Rightarrow> json_load text ''True''
                | None \<Rightarrow> (Inl (SystemExit 1), [Log ERROR CurriculumFileMissing])))
      | Given p \<Rightarrow>
          if p \<noteq> [] then
            (case fs (Path p) of
               Some text \<Rightarrow> json_load text p
             | None \<Rightarrow> (Inl (SystemExit 1), [Log ERROR CurriculumFileMissing]))
          else (Inl (SystemExit 1), [Log ERROR CurriculumPathMissing])
      | Absent \<Rightarrow> (Inl (SystemExit 1), [Log ERROR CurriculumPathMissing]))"

text \<open>
  Lines 334 to 338 and 340 to 344: a warning when the file exists, then the file is
  opened for writing, which replaces its text, and the curriculum is dumped into it.
\<close>

definition json_dump_to :: "file_name \<Rightarrow> string \<Rightarrow> json \<Rightarrow> files \<Rightarrow> event list \<times> files" where
  "json_dump_to name shown obj fs =
     ((if fs name \<noteq> None then [Log WARNING CurriculumFileExists] else [])
        @ [Log INFO (CurriculumSaved shown)],
      fs(name \<mapsto> json_dumps obj))"

text \<open>
  \<^verbatim>\<open>if args.save:\<close> (lines 332 to 344): the events and the file system after it.
\<close>

definition save_curriculum ::
  "string \<Rightarrow> opt_path \<Rightarrow> json \<Rightarrow> files \<Rightarrow> event list \<times> files" where
  "save_curriculum home save obj fs =
     (case save of
        Flag \<Rightarrow> json_dump_to (Path (path_join home ''course.json'')) ''course.json'' obj fs
      | Given p \<Rightarrow> if p \<noteq> [] then json_dump_to (Path p) p obj fs else ([], fs)
      | Absent \<Rightarrow> ([], fs))"

section \<open>The selection policy of the specification\<close>

text \<open>
  The Media Source Selector as section 4.5 of the specification words it, to compare with
  \<open>media_stage\<close>. A free lecture: a source of type \<^verbatim>\<open>application/x-mpegURL\<close> is
  selected as an HLS target, and its absence is a missing-source error, with no fallback.
  A paid lecture: \<^verbatim>\<open>application/dash+xml\<close> first, selected as a DASH target; if
  there is none, a \<^verbatim>\<open>video/mp4\<close> source is the unsupported case; if there is neither,
  a missing-source error.
\<close>

datatype selection =
    SelectedHLS string
  | SelectedDASH string
  | UnsupportedFormatError
  | MissingSourceError

definition has_type :: "string \<Rightarrow> media_source \<Rightarrow> bool" where
  "has_type t m = (ms_type m = t)"

definition spec_select_source :: "bool \<Rightarrow> media_source list \<Rightarrow> selection" where
  "spec_select_source free srcs =
     (if free then
        (case find (has_type ''application/x-mpegURL'') srcs of
           Some m \<Rightarrow> SelectedHLS (ms_src m)
         | None \<Rightarrow> MissingSourceError)
      else
        (case find (has_type ''application/dash+xml'') srcs of
           Some m \<Rightarrow> SelectedDASH (ms_src m)
         | None \<Rightarrow>
             (case find (has_type ''video/mp4'') srcs of
                Some m \<Rightarrow> UnsupportedFormatError
              | None \<Rightarrow> MissingSourceError)))"

section \<open>Directories written\<close>

text \<open>
  Modelled from the spec: the collaborators \<^verbatim>\<open>download_captions\<close>,
  \<^verbatim>\<open>process_supplementary_assets\<close>, \<^verbatim>\<open>download_and_merge_m3u8\<close> and
  \<^verbatim>\<open>download_and_merge_mpd\<close> live in \<^verbatim>\<open>utils\<close>, which is not in the source.
  Section 6 of the specification gives their contract: each downloads "into a target
  directory" or "within a target directory", the directory argument of the call.
  \<^verbatim>\<open>os.makedirs\<close> creates the directory it is given.
\<close>

fun write_dir :: "event \<Rightarrow> string option" where
  "write_dir (Makedirs d) = Some d"
| "write_dir (DownloadCaptions cs d n ls) = Some d"
| "write_dir (ProcessAssets as d c l) = Some d"
| "write_dir (DownloadM3U8 u d n) = Some d"
| "write_dir (DownloadMPD u d n k) = Some d"
| "write_dir _ = None"

definition is_makedirs :: "event \<Rightarrow> bool" where
  "is_makedirs e = (case e of Makedirs _ \<Rightarrow> True | _ \<Rightarrow> False)"

definition is_caption_or_asset :: "event \<Rightarrow> bool" where
  "is_caption_or_asset e =
     (case e of DownloadCaptions _ _ _ _ \<Rightarrow> True | ProcessAssets _ _ _ _ \<Rightarrow> True | _ \<Rightarrow> False)"

text \<open>
  The directory an event may write, for a task with the chapter directory
  \<open>folder_path\<close> and the item directory \<open>temp_folder_path\<close>.
\<close>

definition dir_ok :: "string \<Rightarrow> string \<Rightarrow> event \<Rightarrow> bool" where
  "dir_ok folder_path temp_folder_path e =
     (write_dir e = None \<or>
      write_dir e = Some (if is_caption_or_asset e then folder_path else temp_folder_path))"

section \<open>Predicates on programs\<close>

text \<open>\<open>emits P m\<close>: every event of \<open>m\<close>, in every world, satisfies \<open>P\<close>.\<close>

definition emits :: "(event \<Rightarrow> bool) \<Rightarrow> ('w, 'a) prog \<Rightarrow> bool" where
  "emits P m = (\<forall>w. \<forall>e\<in>set (fst (snd (m w))). P e)"

text \<open>\<open>quiet m\<close>: in every world \<open>m\<close> returns and creates no directory.\<close>

definition quiet :: "('w, 'a) prog \<Rightarrow> bool" where
  "quiet m = (\<forall>w. (\<exists>a. fst (m w) = Inr a) \<and> filter is_makedirs (fst (snd (m w))) = [])"

text \<open>
  A world without failures: a directory can always be made, every lecture detail is
  served, and no collaborator raises.
\<close>

definition no_failure :: "'w ops \<Rightarrow> bool" where
  "no_failure ops =
     ((\<forall>p w. fst (makedirs ops p w) \<noteq> MkdirError) \<and>
      (\<forall>u w. \<exists>info. fst (get_lecture_json ops u w) = Json info) \<and>
      (\<forall>cs d n ls w. fst (download_captions ops cs d n ls w) = None) \<and>
      (\<forall>as d c l w. fst (process_supplementary_assets ops as d c l w) = None) \<and>
      (\<forall>u d n w. fst (download_and_merge_m3u8 ops u d n w) = None) \<and>
      (\<forall>u d n k w. fst (download_and_merge_mpd ops u d n k w) = None))"

section \<open>Example inputs\<close>

text \<open>
  A small world for examples: the server answers by two tables, a directory is always
  created, no collaborator raises, and titles are clean already.
\<close>

definition ex_ops :: "(string \<Rightarrow> page reply) \<Rightarrow> (string \<Rightarrow> lect_info reply) \<Rightarrow> unit ops" where
  "ex_ops pages lectures =
     \<lparr>CURRICULUM_URL = (\<lambda>c. ''c/'' @ str_int c),
      LECTURE_URL = (\<lambda>c l. ''l/'' @ str_int l),
      sanitize_filename = (\<lambda>t. t),
      get_page_json = (\<lambda>u w. (pages u, w)),
      get_lecture_json = (\<lambda>u w. (lectures u, w)),
      makedirs = (\<lambda>p w. (Created, w)),
      download_captions = (\<lambda>cs d n ls w. (None, w)),
      process_supplementary_assets = (\<lambda>as d c l w. (None, w)),
      download_and_merge_m3u8 = (\<lambda>u d n w. (None, w)),
      download_and_merge_mpd = (\<lambda>u d n k w. (None, w))\<rparr>"

definition ex_table :: "(string \<times> 'a) list \<Rightarrow> string \<Rightarrow> 'a reply" where
  "ex_table tbl u = (case map_of tbl u of None \<Rightarrow> NoResponse | Some v \<Rightarrow> Json v)"

definition ex_source :: "string \<Rightarrow> string \<Rightarrow> media_source" where
  "ex_source t u = \<lparr>ms_type = t, ms_src = u\<rparr>"

definition ex_info :: "int \<Rightarrow> caption list \<Rightarrow> media_source list \<Rightarrow> lect_info" where
  "ex_info n cs srcs = \<lparr>li_id = n, li_captions = cs, li_media_sources = srcs\<rparr>"

definition ex_chapter :: "int \<Rightarrow> string \<Rightarrow> item list \<Rightarrow> chapter" where
  "ex_chapter n t kids = (new_chapter (ex_item ''chapter'' n t))\<lparr>children := kids\<rparr>"

definition ex_globals :: "string option \<Rightarrow> globals" where
  "ex_globals k = \<lparr>g_key = k, g_captions = [''en_US''], g_COURSE_DIR = ''course''\<rparr>"

definition ex_always :: "'a \<Rightarrow> string \<Rightarrow> 'a reply" where
  "ex_always v u = Json v"



definition ex_page :: "int \<Rightarrow> item list \<Rightarrow> string option \<Rightarrow> page" where
  "ex_page c rs nx = \<lparr>p_detail = None, p_count = Some c, p_results = Some rs, p_next = nx\<rparr>"

text \<open>
  A curriculum to save and load: a chapter with a lecture and a practice item, whose
  strings hold a quote, a backslash, a newline and a character above 127, and an empty
  chapter; and a Python value that is no curriculum.
\<close>

definition ex_cache_lecture :: item where
  "ex_cache_lecture =
     \<lparr>i_class = ''lecture'', i_id = 31,
      i_title = ''Say '' @ [CHR 0x22] @ ''hi'' @ [CHR 0x22],
      i_description = ''a'' @ [CHR 0x5C, CHR 0x0A, CHR 0xE9] @ ''b'',
      i_is_published = True, i_is_free = False,
      i_supplementary_assets = [Asset ''notes.pdf'']\<rparr>"

definition ex_cache_practice :: item where
  "ex_cache_practice =
     \<lparr>i_class = ''practice'', i_id = - 4, i_title = ''Quiz'', i_description = [],
      i_is_published = False, i_is_free = True, i_supplementary_assets = []\<rparr>"

definition ex_cache_curriculum :: "chapter list" where
  "ex_cache_curriculum =
     [\<lparr>c_id = 10, c_title = ''One'', c_description = ''first'', c_is_published = True,
       children = [ex_cache_lecture, ex_cache_practice]\<rparr>,
      \<lparr>c_id = 20, c_title = ''Two'', c_description = [], c_is_published = False,
       children = []\<rparr>]"


definition ex_no_files :: files where
  "ex_no_files name = None"

section \<open>Properties of the organizer\<close>

lemma org_inv_init: "org_inv org_init"
  by (simp add: org_inv_def org_init_def)

lemma update_last: "cs \<noteq> [] \<Longrightarrow> cs[length cs - Suc 0 := f (cs ! (length cs - Suc 0))] = butlast cs @ [f (last cs)]"
  by (induction cs rule: rev_induct) (simp_all add: nth_append)

lemma step_chapter:
  "is_chapter it \<Longrightarrow> organize_step s it =
     s\<lparr>curriculum := curriculum s @ [new_chapter it],
       current_chapter := Some (length (curriculum s))\<rparr>"
  by (simp add: organize_step_def is_chapter_def)

lemma step_orphan:
  "\<not> is_chapter it \<Longrightarrow> is_child it \<Longrightarrow> current_chapter s = None \<Longrightarrow>
   organize_step s it = s\<lparr>org_log := org_log s @ [Log WARNING OrphanItem]\<rparr>"
  by (auto simp add: organize_step_def is_chapter_def is_child_def)

lemma step_child:
  "\<not> is_chapter it \<Longrightarrow> is_child it \<Longrightarrow> org_inv s \<Longrightarrow> curriculum s \<noteq> [] \<Longrightarrow>
   organize_step s it =
     s\<lparr>curriculum := butlast (curriculum s) @ [append_child it (last (curriculum s))],
       total_lectures := total_lectures s + (if is_lecture it then 1 else 0)\<rparr>"
  by (auto simp add: organize_step_def is_chapter_def is_child_def is_lecture_def org_inv_def
      update_last Let_def)

lemma step_other:
  "\<not> is_chapter it \<Longrightarrow> \<not> is_child it \<Longrightarrow> organize_step s it = s"
  by (simp add: organize_step_def is_chapter_def is_child_def)

lemma org_inv_step: "org_inv s \<Longrightarrow> org_inv (organize_step s it)"
  by (auto simp add: organize_step_def org_inv_def Let_def split: option.splits)

lemma organize_loop_append:
  "organize_loop s (xs @ ys) = organize_loop (organize_loop s xs) ys"
  by (induction xs arbitrary: s) simp_all

lemma org_inv_loop: "org_inv s \<Longrightarrow> org_inv (organize_loop s xs)"
  by (induction xs arbitrary: s) (simp_all add: org_inv_step)

lemma loop_orphans:
  "\<forall>x\<in>set zs. \<not> is_chapter x \<Longrightarrow> current_chapter s = None \<Longrightarrow>
   organize_loop s zs =
     s\<lparr>org_log := org_log s @ replicate (length (filter is_child zs)) (Log WARNING OrphanItem)\<rparr>"
proof (induction zs arbitrary: s)
  case Nil
  then show ?case by simp
next
  case (Cons z zs)
  show ?case
  proof (cases "is_child z")
    case True
    with Cons.prems have st: "organize_step s z = s\<lparr>org_log := org_log s @ [Log WARNING OrphanItem]\<rparr>"
      by (simp add: step_orphan)
    show ?thesis using Cons.prems True
      by (simp add: st Cons.IH replicate_app_Cons_same)
  next
    case False
    with Cons.prems have st: "organize_step s z = s" by (simp add: step_other)
    show ?thesis using Cons.prems False by (simp add: st Cons.IH)
  qed
qed

lemma loop_segment:
  "\<forall>x\<in>set zs. \<not> is_chapter x \<Longrightarrow> org_inv s \<Longrightarrow> curriculum s = cs @ [c] \<Longrightarrow>
   organize_loop s zs =
     s\<lparr>curriculum := cs @ [c\<lparr>children := children c @ filter is_child zs\<rparr>],
       total_lectures := total_lectures s + length (filter is_lecture zs)\<rparr>"
proof (induction zs arbitrary: s c)
  case Nil
  then show ?case by simp
next
  case (Cons z zs)
  show ?case
  proof (cases "is_child z")
    case True
    let ?s' = "organize_step s z"
    have st: "?s' = s\<lparr>curriculum := cs @ [append_child z c],
       total_lectures := total_lectures s + (if is_lecture z then 1 else 0)\<rparr>"
      using Cons.prems True by (simp add: step_child)
    have inv': "org_inv ?s'" using Cons.prems by (simp add: org_inv_step)
    have cur': "curriculum ?s' = cs @ [append_child z c]" by (simp add: st)
    have "organize_loop ?s' zs = ?s'\<lparr>curriculum := cs @ [(append_child z c)\<lparr>children := children (append_child z c) @ filter is_child zs\<rparr>],
       total_lectures := total_lectures ?s' + length (filter is_lecture zs)\<rparr>"
      using Cons.prems by (intro Cons.IH[OF _ inv' cur']) simp
    then show ?thesis using True
      by (simp add: st append_child_def)
  next
    case False
    have nl: "\<not> is_lecture z" using False by (simp add: is_child_def is_lecture_def)
    from False Cons.prems have st: "organize_step s z = s" by (simp add: step_other)
    show ?thesis using Cons.prems False nl by (simp add: st Cons.IH)
  qed
qed


lemma loop_log_prefix:
  "organize_loop (s\<lparr>org_log := l @ org_log s\<rparr>) xs =
   (organize_loop s xs)\<lparr>org_log := l @ org_log (organize_loop s xs)\<rparr>"
proof (induction xs arbitrary: s)
  case Nil
  show ?case by simp
next
  case (Cons x xs)
  have "organize_step (s\<lparr>org_log := l @ org_log s\<rparr>) x =
        (organize_step s x)\<lparr>org_log := l @ org_log (organize_step s x)\<rparr>"
    by (simp add: organize_step_def Let_def split: option.splits)
  then show ?case by (simp add: Cons.IH)
qed

lemma loop_general:
  "org_inv s \<Longrightarrow>
     map shell (curriculum (organize_loop s xs)) =
           map shell (curriculum s) @ map new_chapter (filter is_chapter xs) \<and>
     concat (map children (curriculum (organize_loop s xs))) =
           concat (map children (curriculum s)) @
           filter is_child (if curriculum s = [] then dropWhile (\<lambda>x. \<not> is_chapter x) xs else xs) \<and>
     total_lectures (organize_loop s xs) =
           total_lectures s +
           length (filter is_lecture (if curriculum s = [] then dropWhile (\<lambda>x. \<not> is_chapter x) xs else xs)) \<and>
     org_log (organize_loop s xs) =
           org_log s @ replicate (length (filter is_child
              (if curriculum s = [] then takeWhile (\<lambda>x. \<not> is_chapter x) xs else []))) (Log WARNING OrphanItem)"
proof (induction xs arbitrary: s)
  case Nil
  show ?case by simp
next
  case (Cons x xs)
  have inv': "org_inv (organize_step s x)" using Cons.prems by (rule org_inv_step)
  note IH = Cons.IH[OF inv']
  consider (ch) "is_chapter x" | (orph) "\<not> is_chapter x" "is_child x" "curriculum s = []"
    | (kid) "\<not> is_chapter x" "is_child x" "curriculum s \<noteq> []" | (oth) "\<not> is_chapter x" "\<not> is_child x"
    by blast
  then show ?case
  proof cases
    case ch
    have nk: "\<not> is_child x" "\<not> is_lecture x"
      using ch by (simp_all add: is_chapter_def is_child_def is_lecture_def)
    have st: "organize_step s x = s\<lparr>curriculum := curriculum s @ [new_chapter x],
       current_chapter := Some (length (curriculum s))\<rparr>"
      using ch by (rule step_chapter)
    show ?thesis using ch nk IH
      by (simp add: st shell_def new_chapter_def)
  next
    case orph
    have cur: "current_chapter s = None" using Cons.prems orph by (simp add: org_inv_def)
    have st: "organize_step s x = s\<lparr>org_log := org_log s @ [Log WARNING OrphanItem]\<rparr>"
      using orph cur by (simp add: step_orphan)
    show ?thesis using orph IH
      by (simp add: st replicate_app_Cons_same)
  next
    case kid
    have st: "organize_step s x =
     s\<lparr>curriculum := butlast (curriculum s) @ [append_child x (last (curriculum s))],
       total_lectures := total_lectures s + (if is_lecture x then 1 else 0)\<rparr>"
      using kid Cons.prems by (simp add: step_child)
    obtain cs c where csc: "curriculum s = cs @ [c]"
      using kid(3) by (metis append_butlast_last_id)
    show ?thesis using kid IH
      by (simp add: st csc shell_def append_child_def)
  next
    case oth
    have nl: "\<not> is_lecture x" using oth by (simp add: is_child_def is_lecture_def)
    have st: "organize_step s x = s" using oth by (simp add: step_other)
    show ?thesis using oth nl IH by (simp add: st)
  qed
qed


lemma organize_curriculum_fst: "fst (organize_curriculum xs) = curriculum (organize_loop org_init xs)"
  by (simp add: organize_curriculum_def Let_def)

lemma organize_curriculum_snd:
  "snd (organize_curriculum xs) =
     org_log (organize_loop org_init xs) @
     [Log INFO (DiscoveredChapters (length (curriculum (organize_loop org_init xs)))),
      Log INFO (DiscoveredLectures (total_lectures (organize_loop org_init xs)))]"
  by (simp add: organize_curriculum_def Let_def)

text \<open>
  Claim C2, as the code has it. The chapters of the result are the chapter items of the
  input, in the input's order; the children of all chapters, read chapter after chapter,
  are the lecture and practice items that follow the first chapter item, in the input's
  order; and the reported lecture count is the number of lecture items that follow the
  first chapter item (practice items and the lectures in front of the first chapter are
  not counted).
\<close>

theorem organize_order_and_count:
  "map shell (fst (organize_curriculum xs)) = map new_chapter (filter is_chapter xs) \<and>
   concat (map children (fst (organize_curriculum xs))) =
     filter is_child (dropWhile (\<lambda>x. \<not> is_chapter x) xs) \<and>
   snd (organize_curriculum xs) =
     replicate (length (filter is_child (takeWhile (\<lambda>x. \<not> is_chapter x) xs))) (Log WARNING OrphanItem) @
     [Log INFO (DiscoveredChapters (length (filter is_chapter xs))),
      Log INFO (DiscoveredLectures
         (length (filter is_lecture (dropWhile (\<lambda>x. \<not> is_chapter x) xs))))]"
proof -
  note g = loop_general[OF org_inv_init, of xs]
  have c0: "curriculum org_init = []" "total_lectures org_init = 0" "org_log org_init = []"
    by (simp_all add: org_init_def)
  have a: "map shell (curriculum (organize_loop org_init xs)) = map new_chapter (filter is_chapter xs)"
    using g by (simp add: c0)
  have b: "concat (map children (curriculum (organize_loop org_init xs))) =
     filter is_child (dropWhile (\<lambda>x. \<not> is_chapter x) xs)"
    using g by (simp add: c0)
  have c: "total_lectures (organize_loop org_init xs) =
     length (filter is_lecture (dropWhile (\<lambda>x. \<not> is_chapter x) xs))"
    using g by (simp add: c0)
  have d: "org_log (organize_loop org_init xs) =
     replicate (length (filter is_child (takeWhile (\<lambda>x. \<not> is_chapter x) xs))) (Log WARNING OrphanItem)"
    using g by (simp add: c0)
  have n: "length (curriculum (organize_loop org_init xs)) = length (filter is_chapter xs)"
    using arg_cong[OF a, of length] by simp
  show ?thesis
    by (simp add: organize_curriculum_fst organize_curriculum_snd a b c d n)
qed

theorem organize_order_and_count_witness:
  "fst (organize_curriculum
     [ex_item ''chapter'' 1 ''A'', ex_item ''lecture'' 2 ''L1'', ex_item ''practice'' 3 ''P1'',
      ex_item ''chapter'' 4 ''B'', ex_item ''lecture'' 5 ''L2'']) =
   [(new_chapter (ex_item ''chapter'' 1 ''A''))
      \<lparr>children := [ex_item ''lecture'' 2 ''L1'', ex_item ''practice'' 3 ''P1'']\<rparr>,
    (new_chapter (ex_item ''chapter'' 4 ''B''))\<lparr>children := [ex_item ''lecture'' 5 ''L2'']\<rparr>] \<and>
   snd (organize_curriculum
     [ex_item ''chapter'' 1 ''A'', ex_item ''lecture'' 2 ''L1'', ex_item ''practice'' 3 ''P1'',
      ex_item ''chapter'' 4 ''B'', ex_item ''lecture'' 5 ''L2'']) =
   [Log INFO (DiscoveredChapters 2), Log INFO (DiscoveredLectures 2)]"
proof -
  let ?xs = "[ex_item ''chapter'' 1 ''A'', ex_item ''lecture'' 2 ''L1'', ex_item ''practice'' 3 ''P1'',
      ex_item ''chapter'' 4 ''B'', ex_item ''lecture'' 5 ''L2'']"
  have f: "fst (organize_curriculum ?xs) =
   [(new_chapter (ex_item ''chapter'' 1 ''A''))
      \<lparr>children := [ex_item ''lecture'' 2 ''L1'', ex_item ''practice'' 3 ''P1'']\<rparr>,
    (new_chapter (ex_item ''chapter'' 4 ''B''))\<lparr>children := [ex_item ''lecture'' 5 ''L2'']\<rparr>]"
    by (simp add: organize_curriculum_def organize_step_def org_init_def ex_item_def
        new_chapter_def append_child_def Let_def)
  have s: "snd (organize_curriculum ?xs) = [Log INFO (DiscoveredChapters 2), Log INFO (DiscoveredLectures 2)]"
    using organize_order_and_count[of ?xs]
    by (simp add: is_chapter_def is_child_def is_lecture_def ex_item_def)
  show ?thesis using f s by simp
qed

text \<open>
  Claim C2 as stated fails: a lecture in front of the first chapter is an item whose class
  tag is \<^verbatim>\<open>lecture\<close>, and the reported lecture count leaves it out.
\<close>

theorem organize_count_counterexample:
  "snd (organize_curriculum [ex_item ''lecture'' 1 ''L0'', ex_item ''chapter'' 2 ''A'']) =
     [Log WARNING OrphanItem, Log INFO (DiscoveredChapters 1), Log INFO (DiscoveredLectures 0)] \<and>
   length (filter is_lecture [ex_item ''lecture'' 1 ''L0'', ex_item ''chapter'' 2 ''A'']) = 1"
  by (simp add: organize_curriculum_def organize_step_def org_init_def ex_item_def
        new_chapter_def append_child_def Let_def is_lecture_def)

text \<open>
  Claim C3. The lecture and practice items between a chapter item and the next chapter
  item become the children of that chapter and of no other: the chapters built from the
  items in front of it are what they were. The items in front of the first chapter are
  in no chapter of the result, no chapter is made for them, and each lecture or practice
  item among them is reported by one warning.
\<close>

theorem organize_attaches_to_open_chapter:
  "(is_chapter c \<and> (\<forall>x\<in>set zs. \<not> is_chapter x) \<longrightarrow>
      fst (organize_curriculum (ys @ c # zs)) =
        fst (organize_curriculum ys) @ [(new_chapter c)\<lparr>children := filter is_child zs\<rparr>]) \<and>
   ((\<forall>x\<in>set pre. \<not> is_chapter x) \<longrightarrow>
      fst (organize_curriculum (pre @ rest)) = fst (organize_curriculum rest) \<and>
      snd (organize_curriculum (pre @ rest)) =
        replicate (length (filter is_child pre)) (Log WARNING OrphanItem) @
        snd (organize_curriculum rest))"
proof (intro conjI impI)
  assume h: "is_chapter c \<and> (\<forall>x\<in>set zs. \<not> is_chapter x)"
  let ?s = "organize_loop org_init ys"
  let ?s' = "organize_step ?s c"
  have inv: "org_inv ?s'" by (simp add: org_inv_init org_inv_loop org_inv_step)
  have st: "?s' = ?s\<lparr>curriculum := curriculum ?s @ [new_chapter c],
       current_chapter := Some (length (curriculum ?s))\<rparr>"
    using h by (simp add: step_chapter)
  have cur: "curriculum ?s' = curriculum ?s @ [new_chapter c]" by (simp add: st)
  have "organize_loop ?s' zs =
     ?s'\<lparr>curriculum := curriculum ?s @ [(new_chapter c)\<lparr>children := children (new_chapter c) @ filter is_child zs\<rparr>],
       total_lectures := total_lectures ?s' + length (filter is_lecture zs)\<rparr>"
    using h by (intro loop_segment[OF _ inv cur]) simp
  then have "curriculum (organize_loop ?s' zs) =
     curriculum ?s @ [(new_chapter c)\<lparr>children := filter is_child zs\<rparr>]"
    by (simp add: new_chapter_def)
  then show "fst (organize_curriculum (ys @ c # zs)) =
        fst (organize_curriculum ys) @ [(new_chapter c)\<lparr>children := filter is_child zs\<rparr>]"
    by (simp add: organize_curriculum_fst organize_loop_append)
next
  assume h: "\<forall>x\<in>set pre. \<not> is_chapter x"
  let ?l = "replicate (length (filter is_child pre)) (Log WARNING OrphanItem)"
  have "organize_loop org_init pre = org_init\<lparr>org_log := org_log org_init @ ?l\<rparr>"
    using h by (intro loop_orphans) (simp_all add: org_init_def)
  then have p: "organize_loop org_init pre = org_init\<lparr>org_log := ?l @ org_log org_init\<rparr>"
    by (simp add: org_init_def)
  have e: "organize_loop org_init (pre @ rest) =
     (organize_loop org_init rest)\<lparr>org_log := ?l @ org_log (organize_loop org_init rest)\<rparr>"
    by (simp only: organize_loop_append p loop_log_prefix)
  show "fst (organize_curriculum (pre @ rest)) = fst (organize_curriculum rest)"
    by (simp add: organize_curriculum_fst e)
  show "snd (organize_curriculum (pre @ rest)) = ?l @ snd (organize_curriculum rest)"
    by (simp add: organize_curriculum_snd e)
qed

theorem organize_attaches_to_open_chapter_witness:
  "fst (organize_curriculum
     ([ex_item ''chapter'' 1 ''A'', ex_item ''lecture'' 2 ''L1''] @
      ex_item ''chapter'' 4 ''B'' # [ex_item ''lecture'' 5 ''L2'', ex_item ''quiz'' 6 ''Q'',
        ex_item ''practice'' 7 ''P''])) =
   [(new_chapter (ex_item ''chapter'' 1 ''A''))\<lparr>children := [ex_item ''lecture'' 2 ''L1'']\<rparr>,
    (new_chapter (ex_item ''chapter'' 4 ''B''))
      \<lparr>children := [ex_item ''lecture'' 5 ''L2'', ex_item ''practice'' 7 ''P'']\<rparr>] \<and>
   organize_curriculum ([ex_item ''lecture'' 1 ''L0''] @ [ex_item ''chapter'' 2 ''A'']) =
     ([new_chapter (ex_item ''chapter'' 2 ''A'')],
      [Log WARNING OrphanItem, Log INFO (DiscoveredChapters 1), Log INFO (DiscoveredLectures 0)])"
proof -
  let ?ys = "[ex_item ''chapter'' 1 ''A'', ex_item ''lecture'' 2 ''L1'']"
  let ?c = "ex_item ''chapter'' 4 ''B''"
  let ?zs = "[ex_item ''lecture'' 5 ''L2'', ex_item ''quiz'' 6 ''Q'', ex_item ''practice'' 7 ''P'']"
  let ?pre = "[ex_item ''lecture'' 1 ''L0'']"
  let ?rest = "[ex_item ''chapter'' 2 ''A'']"
  have h1: "is_chapter ?c \<and> (\<forall>x\<in>set ?zs. \<not> is_chapter x)"
    by (simp add: is_chapter_def ex_item_def)
  have h2: "\<forall>x\<in>set ?pre. \<not> is_chapter x"
    by (simp add: is_chapter_def ex_item_def)
  have ys: "fst (organize_curriculum ?ys) =
    [(new_chapter (ex_item ''chapter'' 1 ''A''))\<lparr>children := [ex_item ''lecture'' 2 ''L1'']\<rparr>]"
    by (simp add: organize_curriculum_def organize_step_def org_init_def ex_item_def
        new_chapter_def append_child_def Let_def)
  have rest: "organize_curriculum ?rest =
     ([new_chapter (ex_item ''chapter'' 2 ''A'')],
      [Log INFO (DiscoveredChapters 1), Log INFO (DiscoveredLectures 0)])"
    by (simp add: organize_curriculum_def organize_step_def org_init_def ex_item_def
        new_chapter_def append_child_def Let_def)
  have zs: "filter is_child ?zs = [ex_item ''lecture'' 5 ''L2'', ex_item ''practice'' 7 ''P'']"
    by (simp add: is_child_def ex_item_def)
  have pre: "length (filter is_child ?pre) = 1"
    by (simp add: is_child_def ex_item_def)
  from organize_attaches_to_open_chapter[of ?c ?zs ?ys ?pre ?rest] h1 h2
  have a: "fst (organize_curriculum (?ys @ ?c # ?zs)) =
        fst (organize_curriculum ?ys) @ [(new_chapter ?c)\<lparr>children := filter is_child ?zs\<rparr>]"
    and b: "fst (organize_curriculum (?pre @ ?rest)) = fst (organize_curriculum ?rest)"
    and c: "snd (organize_curriculum (?pre @ ?rest)) =
        replicate (length (filter is_child ?pre)) (Log WARNING OrphanItem) @
        snd (organize_curriculum ?rest)"
    by blast+
  have "organize_curriculum (?pre @ ?rest) =
     (fst (organize_curriculum (?pre @ ?rest)), snd (organize_curriculum (?pre @ ?rest)))"
    by simp
  also have "\<dots> = ([new_chapter (ex_item ''chapter'' 2 ''A'')],
      [Log WARNING OrphanItem, Log INFO (DiscoveredChapters 1), Log INFO (DiscoveredLectures 0)])"
    unfolding b c pre rest by simp
  finally have r2: "organize_curriculum (?pre @ ?rest) = ([new_chapter (ex_item ''chapter'' 2 ''A'')],
      [Log WARNING OrphanItem, Log INFO (DiscoveredChapters 1), Log INFO (DiscoveredLectures 0)])" .
  have r1: "fst (organize_curriculum (?ys @ ?c # ?zs)) =
   [(new_chapter (ex_item ''chapter'' 1 ''A''))\<lparr>children := [ex_item ''lecture'' 2 ''L1'']\<rparr>,
    (new_chapter ?c)\<lparr>children := [ex_item ''lecture'' 5 ''L2'', ex_item ''practice'' 7 ''P'']\<rparr>]"
    unfolding a ys zs by simp
  show ?thesis using r1 r2 by blast
qed

section \<open>Properties of the fetcher\<close>

lemma first_nonzero_hd:
  "pages \<noteq> [] \<Longrightarrow> page_count (hd pages) \<noteq> 0 \<or> (\<forall>p\<in>set pages. page_count p = page_count (hd pages)) \<Longrightarrow>
   first_nonzero (map page_count pages) = page_count (hd pages)"
proof (induction pages)
  case Nil
  then show ?case by simp
next
  case (Cons p ps)
  show ?case
  proof (cases "page_count p = 0")
    case False
    then show ?thesis by simp
  next
    case True
    with Cons.prems have all: "\<forall>q\<in>set ps. page_count q = 0" by simp
    have "first_nonzero (map page_count ps) = 0"
      using all by (induction ps) simp_all
    then show ?thesis using True by simp
  qed
qed

lemma fetch_loop_chain:
  "serves ops u w pages \<Longrightarrow>
   \<exists>es2 w'. fetch_loop ops (Some u) t acc es w =
       Some (Inr (acc @ concat (map page_results pages),
                  if t = 0 then first_nonzero (map page_count pages) else t), es @ es2, w') \<and>
     length (filter is_http_get es2) = length pages \<and>
     filter is_progress_total es2 =
       (if t = 0 then map ProgressTotal (counts_read (map page_count pages)) else [])"
proof (induction pages arbitrary: u w t acc es)
  case Nil
  then show ?case by simp
next
  case (Cons p ps)
  obtain w1 where g: "get_page_json ops u w = (Json p, w1)"
    using Cons.prems by (cases "get_page_json ops u w") simp
  have u: "u \<noteq> []" and nf: "p_detail p \<noteq> Some ''Not found.''"
    using Cons.prems by simp_all
  have rq: "request (get_page_json ops) u w = (Json p, [HttpGet u], w1)"
    by (simp add: request_def g)
  let ?t' = "if t = 0 then page_count p else t"
  let ?es' = "es @ [HttpGet u] @ (if t = 0 then [ProgressTotal ?t'] else []) @
       [ProgressCompleted (length (acc @ page_results p))]"
  have step: "fetch_loop ops (Some u) t acc es w =
      fetch_loop ops (p_next p) ?t' (acc @ page_results p) ?es' w1"
    by (subst fetch_loop.simps)
       (simp add: u nf rq Let_def page_count_def page_results_def)
  show ?case
  proof (cases ps)
    case Nil
    have nx: "p_next p = None \<or> p_next p = Some []"
      using Cons.prems Nil by (simp split: option.splits)
    have fin: "fetch_loop ops (p_next p) ?t' (acc @ page_results p) ?es' w1 =
      Some (Inr (acc @ page_results p, ?t'), ?es', w1)"
      using nx by (subst fetch_loop.simps) auto
    show ?thesis
      unfolding step fin using Nil
      by (auto simp add: is_http_get_def is_progress_total_def)
  next
    case (Cons q qs)
    obtain u' where nx: "p_next p = Some u'" and sv: "serves ops u' w1 ps"
      using Cons.prems Cons g by (auto split: option.splits)
    from Cons.IH[OF sv, of ?t' "acc @ page_results p" ?es']
    obtain es3 w' where
      r: "fetch_loop ops (Some u') ?t' (acc @ page_results p) ?es' w1 =
          Some (Inr ((acc @ page_results p) @ concat (map page_results ps),
                  if ?t' = 0 then first_nonzero (map page_count ps) else ?t'), ?es' @ es3, w')"
      and n: "length (filter is_http_get es3) = length ps"
      and pt: "filter is_progress_total es3 =
         (if ?t' = 0 then map ProgressTotal (counts_read (map page_count ps)) else [])"
      by blast
    let ?es2 = "[HttpGet u] @ (if t = 0 then [ProgressTotal ?t'] else []) @
       [ProgressCompleted (length (acc @ page_results p))] @ es3"
    have "fetch_loop ops (Some u) t acc es w =
       Some (Inr (acc @ concat (map page_results (p # ps)),
                  if t = 0 then first_nonzero (map page_count (p # ps)) else t), es @ ?es2, w')"
      unfolding step nx r by simp
    moreover have "length (filter is_http_get ?es2) = length (p # ps)"
      using n by (simp add: is_http_get_def)
    moreover have "filter is_progress_total ?es2 =
       (if t = 0 then map ProgressTotal (counts_read (map page_count (p # ps))) else [])"
      using pt by (simp add: is_progress_total_def)
    ultimately show ?thesis by blast
  qed
qed


text \<open>
  Claim C6, as the code has it. For every chain of pages the loop requests one page after
  the other, as many as the chain has, appends each page's items in order and stops at
  the page without a cursor. The count is read at the first page and again at each later
  page while it is still 0: it is read once, from the first page, when that page
  reports a count other than 0, and the total is the first page's count when that count
  is not 0 or all pages report the same count. The number of accumulated items is the
  sum of the pages' item counts, whatever total the pages report.
\<close>

theorem fetch_accumulates_chain:
  "serves ops (CURRICULUM_URL ops course_id) w pages \<Longrightarrow>
   (\<exists>es2 w'.
      fetch_loop ops (Some (CURRICULUM_URL ops course_id)) 0 [] es w =
        Some (Inr (concat (map page_results pages), first_nonzero (map page_count pages)),
              es @ es2, w') \<and>
      length (filter is_http_get es2) = length pages \<and>
      filter is_progress_total es2 = map ProgressTotal (counts_read (map page_count pages))) \<and>
   (\<exists>es1 w'.
      fetch_course_curriculum ops course_id w =
        Some (Inr (fst (organize_curriculum (concat (map page_results pages)))), es1, w')) \<and>
   (page_count (hd pages) \<noteq> 0 \<or> (\<forall>p\<in>set pages. page_count p = page_count (hd pages)) \<longrightarrow>
      first_nonzero (map page_count pages) = page_count (hd pages)) \<and>
   (page_count (hd pages) \<noteq> 0 \<longrightarrow>
      counts_read (map page_count pages) = [page_count (hd pages)]) \<and>
   length (concat (map page_results pages)) = sum_list (map (\<lambda>p. length (page_results p)) pages)"
proof -
  assume sv: "serves ops (CURRICULUM_URL ops course_id) w pages"
  then have ne: "pages \<noteq> []" by (cases pages) simp_all
  from fetch_loop_chain[OF sv, of 0 "[]" es]
  have a: "\<exists>es2 w'.
      fetch_loop ops (Some (CURRICULUM_URL ops course_id)) 0 [] es w =
        Some (Inr (concat (map page_results pages), first_nonzero (map page_count pages)),
              es @ es2, w') \<and>
      length (filter is_http_get es2) = length pages \<and>
      filter is_progress_total es2 = map ProgressTotal (counts_read (map page_count pages))"
    by simp
  from fetch_loop_chain[OF sv, of 0 "[]" "[Log INFO FetchingCurriculum, ProgressAddTask 0]"]
  obtain es2 w' where
    "fetch_loop ops (Some (CURRICULUM_URL ops course_id)) 0 []
        [Log INFO FetchingCurriculum, ProgressAddTask 0] w =
        Some (Inr (concat (map page_results pages), first_nonzero (map page_count pages)),
              [Log INFO FetchingCurriculum, ProgressAddTask 0] @ es2, w')"
    by auto
  then have b: "\<exists>es1 w'.
      fetch_course_curriculum ops course_id w =
        Some (Inr (fst (organize_curriculum (concat (map page_results pages)))), es1, w')"
    by (simp add: fetch_course_curriculum_def split: prod.splits)
  have c: "page_count (hd pages) \<noteq> 0 \<or> (\<forall>p\<in>set pages. page_count p = page_count (hd pages)) \<longrightarrow>
      first_nonzero (map page_count pages) = page_count (hd pages)"
    using first_nonzero_hd[OF ne] by blast
  have d: "page_count (hd pages) \<noteq> 0 \<longrightarrow>
      counts_read (map page_count pages) = [page_count (hd pages)]"
    using ne by (cases pages) simp_all
  have e: "length (concat (map page_results pages)) =
      sum_list (map (\<lambda>p. length (page_results p)) pages)"
    by (simp add: length_concat comp_def)
  show ?thesis using a b c d e by blast
qed

theorem fetch_accumulates_chain_witness:
  "serves (ex_ops (ex_table [(''c/7'', ex_page 2 [ex_item ''chapter'' 1 ''A''] (Some ''p2'')),
                            (''p2'', ex_page 2 [ex_item ''lecture'' 2 ''L''] None)])
                  (ex_table [])) ''c/7'' ()
     [ex_page 2 [ex_item ''chapter'' 1 ''A''] (Some ''p2''),
      ex_page 2 [ex_item ''lecture'' 2 ''L''] None] \<and>
   fetch_loop (ex_ops (ex_table [(''c/7'', ex_page 2 [ex_item ''chapter'' 1 ''A''] (Some ''p2'')),
                            (''p2'', ex_page 2 [ex_item ''lecture'' 2 ''L''] None)])
                  (ex_table [])) (Some ''c/7'') 0 [] [] () =
     Some (Inr ([ex_item ''chapter'' 1 ''A'', ex_item ''lecture'' 2 ''L''], 2),
           [HttpGet ''c/7'', ProgressTotal 2, ProgressCompleted 1,
            HttpGet ''p2'', ProgressCompleted 2], ())"
proof -
  let ?ops = "ex_ops (ex_table [(''c/7'', ex_page 2 [ex_item ''chapter'' 1 ''A''] (Some ''p2'')),
                            (''p2'', ex_page 2 [ex_item ''lecture'' 2 ''L''] None)])
                  (ex_table [])"
  let ?pages = "[ex_page 2 [ex_item ''chapter'' 1 ''A''] (Some ''p2''),
      ex_page 2 [ex_item ''lecture'' 2 ''L''] None]"
  have url: "CURRICULUM_URL ?ops 7 = ''c/7''"
    by (simp add: ex_ops_def str_int_def str_nat.simps digit_char_def)
  have sv: "serves ?ops ''c/7'' () ?pages"
    by (simp add: ex_ops_def ex_table_def ex_page_def)
  have sv': "serves ?ops (CURRICULUM_URL ?ops 7) () ?pages"
    unfolding url by (rule sv)
  from fetch_accumulates_chain[OF sv', of "[]"]
  obtain es2 w' where
    r: "fetch_loop ?ops (Some (CURRICULUM_URL ?ops 7)) 0 [] [] () =
        Some (Inr (concat (map page_results ?pages), first_nonzero (map page_count ?pages)),
              [] @ es2, w')"
    by blast
  have ev: "fetch_loop ?ops (Some ''c/7'') 0 [] [] () =
     Some (Inr ([ex_item ''chapter'' 1 ''A'', ex_item ''lecture'' 2 ''L''], 2),
           [HttpGet ''c/7'', ProgressTotal 2, ProgressCompleted 1,
            HttpGet ''p2'', ProgressCompleted 2], ())"
    by (simp add: fetch_loop.simps request_def ex_ops_def ex_table_def ex_page_def)
  show ?thesis using sv ev r by simp
qed

text \<open>
  Claim C6 as stated fails twice. When the first page reports the count 0, the count is
  read again from the second page, and the total is the second page's. And a single page
  that reports 5 items and holds one leaves one accumulated item, although its total is
  the same on every page.
\<close>

theorem fetch_total_counterexample:
  "fetch_loop (ex_ops (ex_table [(''c/7'', ex_page 0 [ex_item ''chapter'' 1 ''A''] (Some ''p2'')),
                            (''p2'', ex_page 2 [ex_item ''lecture'' 2 ''L''] None)])
                  (ex_table [])) (Some ''c/7'') 0 [] [] () =
     Some (Inr ([ex_item ''chapter'' 1 ''A'', ex_item ''lecture'' 2 ''L''], 2),
           [HttpGet ''c/7'', ProgressTotal 0, ProgressCompleted 1,
            HttpGet ''p2'', ProgressTotal 2, ProgressCompleted 2], ()) \<and>
   fetch_loop (ex_ops (ex_table [(''c/7'', ex_page 5 [ex_item ''chapter'' 1 ''A''] None)])
                  (ex_table [])) (Some ''c/7'') 0 [] [] () =
     Some (Inr ([ex_item ''chapter'' 1 ''A''], 5),
           [HttpGet ''c/7'', ProgressTotal 5, ProgressCompleted 1], ())"
  by (simp add: fetch_loop.simps request_def ex_ops_def ex_table_def ex_page_def)

section \<open>Properties of the media source selection\<close>

lemma first_src_find:
  "first_src t srcs = map_option ms_src (find (has_type t) srcs)"
  by (induction srcs) (simp_all add: has_type_def)

lemma first_src_decomp:
  "\<forall>x\<in>set pre. ms_type x \<noteq> t \<Longrightarrow> ms_type m = t \<Longrightarrow> first_src t (pre @ m # post) = Some (ms_src m)"
  by (induction pre) simp_all

lemma first_src_None: "first_src t srcs = None \<longleftrightarrow> (\<forall>x\<in>set srcs. ms_type x \<noteq> t)"
  by (induction srcs) simp_all

lemma first_src_Some: "first_src t srcs = Some u \<Longrightarrow> \<exists>m\<in>set srcs. ms_type m = t \<and> ms_src m = u"
  by (induction srcs) (auto split: if_splits)

text \<open>
  Claim C1. What lines 177 to 195 do is what the policy of the specification decides: an
  HLS selection is handed to the HLS collaborator, a DASH selection to the DASH
  collaborator, an unsupported format and a missing source are logged as errors and no
  collaborator is called. In particular a free lecture whose sources are all DASH gets
  the missing-source error, a paid lecture whose sources are all MP4 gets the
  unsupported-format error, and a paid lecture with a DASH and an MP4 source selects a
  DASH source.
\<close>

theorem media_stage_follows_policy:
  "media_stage ops lecture info temp_folder_path lindex key =
     (case spec_select_source (i_is_free lecture) (li_media_sources info) of
        SelectedHLS u \<Rightarrow>
          call (DownloadM3U8 u temp_folder_path (numbered ops lindex (i_title lecture)))
               (download_and_merge_m3u8 ops u temp_folder_path
                  (numbered ops lindex (i_title lecture)))
      | SelectedDASH u \<Rightarrow>
          seq (if key = None then logger WARNING DrmProtected else skip) (\<lambda>_.
            call (DownloadMPD u temp_folder_path (numbered ops lindex (i_title lecture)) key)
                 (download_and_merge_mpd ops u temp_folder_path
                    (numbered ops lindex (i_title lecture)) key))
      | UnsupportedFormatError \<Rightarrow> logger ERROR Mp4NotSupported
      | MissingSourceError \<Rightarrow>
          logger ERROR (if i_is_free lecture then M3U8Missing (i_title lecture)
                        else MPDMissing (i_title lecture))) \<and>
   (i_is_free lecture \<and> (\<forall>m\<in>set (li_media_sources info). ms_type m = ''application/dash+xml'') \<longrightarrow>
      spec_select_source (i_is_free lecture) (li_media_sources info) = MissingSourceError \<and>
      media_stage ops lecture info temp_folder_path lindex key w =
        (Inr (), [Log ERROR (M3U8Missing (i_title lecture))], w)) \<and>
   (\<not> i_is_free lecture \<and> li_media_sources info \<noteq> [] \<and>
    (\<forall>m\<in>set (li_media_sources info). ms_type m = ''video/mp4'') \<longrightarrow>
      spec_select_source (i_is_free lecture) (li_media_sources info) = UnsupportedFormatError \<and>
      media_stage ops lecture info temp_folder_path lindex key w =
        (Inr (), [Log ERROR Mp4NotSupported], w)) \<and>
   (\<not> i_is_free lecture \<and>
    (\<exists>m\<in>set (li_media_sources info). ms_type m = ''application/dash+xml'') \<and>
    (\<exists>m\<in>set (li_media_sources info). ms_type m = ''video/mp4'') \<longrightarrow>
      (\<exists>m\<in>set (li_media_sources info). ms_type m = ''application/dash+xml'' \<and>
         spec_select_source (i_is_free lecture) (li_media_sources info) = SelectedDASH (ms_src m)))"
proof (intro conjI impI)
  show "media_stage ops lecture info temp_folder_path lindex key =
     (case spec_select_source (i_is_free lecture) (li_media_sources info) of
        SelectedHLS u \<Rightarrow>
          call (DownloadM3U8 u temp_folder_path (numbered ops lindex (i_title lecture)))
               (download_and_merge_m3u8 ops u temp_folder_path
                  (numbered ops lindex (i_title lecture)))
      | SelectedDASH u \<Rightarrow>
          seq (if key = None then logger WARNING DrmProtected else skip) (\<lambda>_.
            call (DownloadMPD u temp_folder_path (numbered ops lindex (i_title lecture)) key)
                 (download_and_merge_mpd ops u temp_folder_path
                    (numbered ops lindex (i_title lecture)) key))
      | UnsupportedFormatError \<Rightarrow> logger ERROR Mp4NotSupported
      | MissingSourceError \<Rightarrow>
          logger ERROR (if i_is_free lecture then M3U8Missing (i_title lecture)
                        else MPDMissing (i_title lecture)))"
    by (simp add: media_stage_def spec_select_source_def first_src_find Let_def
        split: option.splits)
next
  assume h: "i_is_free lecture \<and> (\<forall>m\<in>set (li_media_sources info). ms_type m = ''application/dash+xml'')"
  then have n: "first_src ''application/x-mpegURL'' (li_media_sources info) = None"
    by (auto simp add: first_src_None)
  show "spec_select_source (i_is_free lecture) (li_media_sources info) = MissingSourceError"
    using h n by (simp add: spec_select_source_def first_src_find split: option.splits)
  show "media_stage ops lecture info temp_folder_path lindex key w =
        (Inr (), [Log ERROR (M3U8Missing (i_title lecture))], w)"
    using h n by (simp add: media_stage_def logger_def)
next
  assume h: "\<not> i_is_free lecture \<and> li_media_sources info \<noteq> [] \<and>
    (\<forall>m\<in>set (li_media_sources info). ms_type m = ''video/mp4'')"
  then have n: "first_src ''application/dash+xml'' (li_media_sources info) = None"
    by (auto simp add: first_src_None)
  from h obtain m where "m \<in> set (li_media_sources info)" by (cases "li_media_sources info") auto
  with h have "\<not> (\<forall>x\<in>set (li_media_sources info). ms_type x \<noteq> ''video/mp4'')" by blast
  then have s: "first_src ''video/mp4'' (li_media_sources info) \<noteq> None"
    by (simp add: first_src_None)
  show "spec_select_source (i_is_free lecture) (li_media_sources info) = UnsupportedFormatError"
    using h n s by (auto simp add: spec_select_source_def first_src_find split: option.splits)
  show "media_stage ops lecture info temp_folder_path lindex key w =
        (Inr (), [Log ERROR Mp4NotSupported], w)"
    using h n s by (auto simp add: media_stage_def logger_def Let_def split: option.splits)
next
  assume h: "\<not> i_is_free lecture \<and>
    (\<exists>m\<in>set (li_media_sources info). ms_type m = ''application/dash+xml'') \<and>
    (\<exists>m\<in>set (li_media_sources info). ms_type m = ''video/mp4'')"
  then have "first_src ''application/dash+xml'' (li_media_sources info) \<noteq> None"
    by (auto simp add: first_src_None)
  then obtain u where u: "first_src ''application/dash+xml'' (li_media_sources info) = Some u"
    by blast
  from first_src_Some[OF u] obtain m where m: "m \<in> set (li_media_sources info)"
    "ms_type m = ''application/dash+xml''" "ms_src m = u" by blast
  have "spec_select_source (i_is_free lecture) (li_media_sources info) = SelectedDASH u"
    using h u by (auto simp add: spec_select_source_def first_src_find split: option.splits)
  then show "\<exists>m\<in>set (li_media_sources info). ms_type m = ''application/dash+xml'' \<and>
         spec_select_source (i_is_free lecture) (li_media_sources info) = SelectedDASH (ms_src m)"
    using m by blast
qed


theorem media_stage_follows_policy_witness:
  "media_stage (ex_ops (ex_table []) (ex_table []))
      ((ex_item ''lecture'' 10 ''L'')\<lparr>i_is_free := True\<rparr>)
      (ex_info 10 [] [ex_source ''application/dash+xml'' ''d'']) ''t'' 1 None () =
     (Inr (), [Log ERROR (M3U8Missing ''L'')], ()) \<and>
   media_stage (ex_ops (ex_table []) (ex_table [])) (ex_item ''lecture'' 10 ''L'')
      (ex_info 10 [] [ex_source ''video/mp4'' ''v'']) ''t'' 1 None () =
     (Inr (), [Log ERROR Mp4NotSupported], ()) \<and>
   spec_select_source False
      [ex_source ''video/mp4'' ''v'', ex_source ''application/dash+xml'' ''d''] =
     SelectedDASH ''d''"
proof -
  let ?ops = "ex_ops (ex_table []) (ex_table []) :: unit ops"
  let ?free = "(ex_item ''lecture'' 10 ''L'')\<lparr>i_is_free := True\<rparr>"
  let ?paid = "ex_item ''lecture'' 10 ''L''"
  let ?dash = "ex_info 10 [] [ex_source ''application/dash+xml'' ''d'']"
  let ?mp4 = "ex_info 10 [] [ex_source ''video/mp4'' ''v'']"
  let ?both = "ex_info 10 [] [ex_source ''video/mp4'' ''v'', ex_source ''application/dash+xml'' ''d'']"
  have h1: "i_is_free ?free \<and> (\<forall>m\<in>set (li_media_sources ?dash). ms_type m = ''application/dash+xml'')"
    by (simp add: ex_item_def ex_info_def ex_source_def)
  have h2: "\<not> i_is_free ?paid \<and> li_media_sources ?mp4 \<noteq> [] \<and>
      (\<forall>m\<in>set (li_media_sources ?mp4). ms_type m = ''video/mp4'')"
    by (simp add: ex_item_def ex_info_def ex_source_def)
  have h3: "\<not> i_is_free ?paid \<and>
      (\<exists>m\<in>set (li_media_sources ?both). ms_type m = ''application/dash+xml'') \<and>
      (\<exists>m\<in>set (li_media_sources ?both). ms_type m = ''video/mp4'')"
    by (simp add: ex_item_def ex_info_def ex_source_def)
  have a: "media_stage ?ops ?free ?dash ''t'' 1 None () =
     (Inr (), [Log ERROR (M3U8Missing (i_title ?free))], ())"
    using media_stage_follows_policy[where lecture = ?free and info = ?dash
        and ops = ?ops and temp_folder_path = "''t''" and lindex = 1 and key = None and w = "()"]
      h1 by blast
  have b: "media_stage ?ops ?paid ?mp4 ''t'' 1 None () = (Inr (), [Log ERROR Mp4NotSupported], ())"
    using media_stage_follows_policy[where lecture = ?paid and info = ?mp4
        and ops = ?ops and temp_folder_path = "''t''" and lindex = 1 and key = None and w = "()"]
      h2 by blast
  have "\<exists>m\<in>set (li_media_sources ?both). ms_type m = ''application/dash+xml'' \<and>
         spec_select_source (i_is_free ?paid) (li_media_sources ?both) = SelectedDASH (ms_src m)"
    using media_stage_follows_policy[where lecture = ?paid and info = ?both
        and ops = ?ops and temp_folder_path = "''t''" and lindex = 1 and key = None and w = "()"]
      h3 by blast
  then have c: "spec_select_source False
      [ex_source ''video/mp4'' ''v'', ex_source ''application/dash+xml'' ''d''] = SelectedDASH ''d''"
    by (simp add: ex_item_def ex_info_def ex_source_def)
  have t: "i_title ?free = ''L''" by (simp add: ex_item_def)
  show ?thesis using a b c unfolding t by simp
qed

text \<open>
  Claim C10. Of several sources of the wanted type the first in the list's order is
  taken, whatever the type; it is the one handed to the HLS collaborator for a free
  lecture and to the DASH collaborator for a paid one. The selection is a function of
  the lecture detail, so two runs select the same source.
\<close>

theorem selector_picks_first_of_type:
  "((\<forall>x\<in>set pre. ms_type x \<noteq> t) \<and> ms_type m = t \<longrightarrow>
      first_src t (pre @ m # post) = Some (ms_src m)) \<and>
   (i_is_free lecture \<and> li_media_sources info = pre @ m # post \<and>
    (\<forall>x\<in>set pre. ms_type x \<noteq> ''application/x-mpegURL'') \<and>
    ms_type m = ''application/x-mpegURL'' \<longrightarrow>
      media_stage ops lecture info temp_folder_path lindex key =
        call (DownloadM3U8 (ms_src m) temp_folder_path (numbered ops lindex (i_title lecture)))
             (download_and_merge_m3u8 ops (ms_src m) temp_folder_path
                (numbered ops lindex (i_title lecture)))) \<and>
   (\<not> i_is_free lecture \<and> li_media_sources info = pre @ m # post \<and>
    (\<forall>x\<in>set pre. ms_type x \<noteq> ''application/dash+xml'') \<and>
    ms_type m = ''application/dash+xml'' \<longrightarrow>
      media_stage ops lecture info temp_folder_path lindex key =
        seq (if key = None then logger WARNING DrmProtected else skip) (\<lambda>_.
          call (DownloadMPD (ms_src m) temp_folder_path (numbered ops lindex (i_title lecture)) key)
               (download_and_merge_mpd ops (ms_src m) temp_folder_path
                  (numbered ops lindex (i_title lecture)) key)))"
proof (intro conjI impI)
  assume "(\<forall>x\<in>set pre. ms_type x \<noteq> t) \<and> ms_type m = t"
  then show "first_src t (pre @ m # post) = Some (ms_src m)"
    by (simp add: first_src_decomp)
next
  assume h: "i_is_free lecture \<and> li_media_sources info = pre @ m # post \<and>
    (\<forall>x\<in>set pre. ms_type x \<noteq> ''application/x-mpegURL'') \<and>
    ms_type m = ''application/x-mpegURL''"
  then have "first_src ''application/x-mpegURL'' (li_media_sources info) = Some (ms_src m)"
    by (simp add: first_src_decomp)
  then show "media_stage ops lecture info temp_folder_path lindex key =
        call (DownloadM3U8 (ms_src m) temp_folder_path (numbered ops lindex (i_title lecture)))
             (download_and_merge_m3u8 ops (ms_src m) temp_folder_path
                (numbered ops lindex (i_title lecture)))"
    using h by (simp add: media_stage_def)
next
  assume h: "\<not> i_is_free lecture \<and> li_media_sources info = pre @ m # post \<and>
    (\<forall>x\<in>set pre. ms_type x \<noteq> ''application/dash+xml'') \<and>
    ms_type m = ''application/dash+xml''"
  then have "first_src ''application/dash+xml'' (li_media_sources info) = Some (ms_src m)"
    by (simp add: first_src_decomp)
  then show "media_stage ops lecture info temp_folder_path lindex key =
        seq (if key = None then logger WARNING DrmProtected else skip) (\<lambda>_.
          call (DownloadMPD (ms_src m) temp_folder_path (numbered ops lindex (i_title lecture)) key)
               (download_and_merge_mpd ops (ms_src m) temp_folder_path
                  (numbered ops lindex (i_title lecture)) key))"
    using h by (simp add: media_stage_def Let_def)
qed

theorem selector_picks_first_of_type_witness:
  "first_src ''video/mp4''
     ([ex_source ''application/dash+xml'' ''d''] @ ex_source ''video/mp4'' ''v1'' #
      [ex_source ''video/mp4'' ''v2'']) = Some ''v1'' \<and>
   media_stage (ex_ops (ex_table []) (ex_table []))
      ((ex_item ''lecture'' 10 ''L'')\<lparr>i_is_free := True\<rparr>)
      (ex_info 10 [] ([ex_source ''video/mp4'' ''v''] @ ex_source ''application/x-mpegURL'' ''h1'' #
         [ex_source ''application/x-mpegURL'' ''h2''])) ''t'' 1 None () =
     (Inr (), [DownloadM3U8 ''h1'' ''t'' ''1. L''], ()) \<and>
   media_stage (ex_ops (ex_table []) (ex_table [])) (ex_item ''lecture'' 10 ''L'')
      (ex_info 10 [] ([ex_source ''video/mp4'' ''v''] @ ex_source ''application/dash+xml'' ''d1'' #
         [ex_source ''application/dash+xml'' ''d2''])) ''t'' 1 (Some ''a:b'') () =
     (Inr (), [DownloadMPD ''d1'' ''t'' ''1. L'' (Some ''a:b'')], ())"
proof -
  let ?ops = "ex_ops (ex_table []) (ex_table []) :: unit ops"
  let ?free = "(ex_item ''lecture'' 10 ''L'')\<lparr>i_is_free := True\<rparr>"
  let ?paid = "ex_item ''lecture'' 10 ''L''"
  let ?pre = "[ex_source ''video/mp4'' ''v'']"
  let ?h1 = "ex_source ''application/x-mpegURL'' ''h1''"
  let ?hpost = "[ex_source ''application/x-mpegURL'' ''h2'']"
  let ?d1 = "ex_source ''application/dash+xml'' ''d1''"
  let ?dpost = "[ex_source ''application/dash+xml'' ''d2'']"
  let ?hinfo = "ex_info 10 [] (?pre @ ?h1 # ?hpost)"
  let ?dinfo = "ex_info 10 [] (?pre @ ?d1 # ?dpost)"
  have nm: "numbered ?ops 1 ''L'' = ''1. L''"
    by (simp add: numbered_def ex_ops_def str_int_def str_nat.simps digit_char_def)
  have ha: "(\<forall>x\<in>set [ex_source ''application/dash+xml'' ''d'']. ms_type x \<noteq> ''video/mp4'') \<and>
      ms_type (ex_source ''video/mp4'' ''v1'') = ''video/mp4''"
    by (simp add: ex_source_def)
  have hb: "i_is_free ?free \<and> li_media_sources ?hinfo = ?pre @ ?h1 # ?hpost \<and>
      (\<forall>x\<in>set ?pre. ms_type x \<noteq> ''application/x-mpegURL'') \<and>
      ms_type ?h1 = ''application/x-mpegURL''"
    by (simp add: ex_source_def ex_item_def ex_info_def)
  have hc: "\<not> i_is_free ?paid \<and> li_media_sources ?dinfo = ?pre @ ?d1 # ?dpost \<and>
      (\<forall>x\<in>set ?pre. ms_type x \<noteq> ''application/dash+xml'') \<and>
      ms_type ?d1 = ''application/dash+xml''"
    by (simp add: ex_source_def ex_item_def ex_info_def)
  have a: "first_src ''video/mp4''
     ([ex_source ''application/dash+xml'' ''d''] @ ex_source ''video/mp4'' ''v1'' #
      [ex_source ''video/mp4'' ''v2'']) = Some (ms_src (ex_source ''video/mp4'' ''v1''))"
    using selector_picks_first_of_type[where pre = "[ex_source ''application/dash+xml'' ''d'']"
        and m = "ex_source ''video/mp4'' ''v1''" and t = "''video/mp4''"
        and post = "[ex_source ''video/mp4'' ''v2'']"] ha
    by blast
  have b: "media_stage ?ops ?free ?hinfo ''t'' 1 None =
     call (DownloadM3U8 (ms_src ?h1) ''t'' (numbered ?ops 1 (i_title ?free)))
          (download_and_merge_m3u8 ?ops (ms_src ?h1) ''t'' (numbered ?ops 1 (i_title ?free)))"
    using selector_picks_first_of_type[where pre = ?pre and m = ?h1 and post = ?hpost
        and lecture = ?free and ops = ?ops and temp_folder_path = "''t''" and lindex = 1
        and key = None and info = ?hinfo] hb
    by blast
  have c: "media_stage ?ops ?paid ?dinfo ''t'' 1 (Some ''a:b'') =
     seq (if Some ''a:b'' = None then logger WARNING DrmProtected else skip) (\<lambda>_.
       call (DownloadMPD (ms_src ?d1) ''t'' (numbered ?ops 1 (i_title ?paid)) (Some ''a:b''))
            (download_and_merge_mpd ?ops (ms_src ?d1) ''t'' (numbered ?ops 1 (i_title ?paid))
               (Some ''a:b'')))"
    using selector_picks_first_of_type[where pre = ?pre and m = ?d1 and post = ?dpost
        and lecture = ?paid and ops = ?ops and temp_folder_path = "''t''" and lindex = 1
        and key = "Some ''a:b''" and info = ?dinfo] hc
    by blast
  have t: "i_title ?free = ''L''" "i_title ?paid = ''L''" "ms_src ?h1 = ''h1''" "ms_src ?d1 = ''d1''"
    "ms_src (ex_source ''video/mp4'' ''v1'') = ''v1''"
    by (simp_all add: ex_item_def ex_source_def)
  have a': "first_src ''video/mp4''
     ([ex_source ''application/dash+xml'' ''d''] @ ex_source ''video/mp4'' ''v1'' #
      [ex_source ''video/mp4'' ''v2'']) = Some ''v1''"
    using a unfolding t .
  have b': "media_stage ?ops ?free ?hinfo ''t'' 1 None () =
     (Inr (), [DownloadM3U8 ''h1'' ''t'' ''1. L''], ())"
    unfolding b t nm by (simp add: call_def ex_ops_def)
  have c': "media_stage ?ops ?paid ?dinfo ''t'' 1 (Some ''a:b'') () =
     (Inr (), [DownloadMPD ''d1'' ''t'' ''1. L'' (Some ''a:b'')], ())"
    unfolding c t nm by (simp add: call_def seq_def skip_def ex_ops_def)
  show ?thesis using a' b' c' by blast
qed

section \<open>Properties of the lecture task\<close>

lemma digit_char_code: "d < 10 \<Longrightarrow> (of_char (digit_char d) :: nat) = 48 + d"
proof -
  assume "d < 10"
  then consider "d = 0" | "d = 1" | "d = 2" | "d = 3" | "d = 4" | "d = 5" | "d = 6"
    | "d = 7" | "d = 8" | "d = 9" by (auto simp add: numeral_eq_Suc less_Suc_eq)
  then show ?thesis by cases (simp_all add: digit_char_def)
qed

lemma digit_char_inj: "a < 10 \<Longrightarrow> b < 10 \<Longrightarrow> digit_char a = digit_char b \<Longrightarrow> a = b"
proof -
  assume a: "a < 10" and b: "b < 10" and e: "digit_char a = digit_char b"
  have "(of_char (digit_char a) :: nat) = of_char (digit_char b)" using e by simp
  then show "a = b" using a b by (simp add: digit_char_code)
qed

lemma digit_char_not_sep: "d < 10 \<Longrightarrow> digit_char d \<noteq> CHR ''-'' \<and> digit_char d \<noteq> CHR ''/''"
proof -
  assume d: "d < 10"
  have "(of_char (digit_char d) :: nat) \<noteq> of_char CHR ''-''"
    "(of_char (digit_char d) :: nat) \<noteq> of_char CHR ''/''"
    using d by (simp_all add: digit_char_code)
  then show ?thesis by auto
qed

lemma str_nat_small: "n < 10 \<Longrightarrow> str_nat n = [digit_char n]"
  by (subst str_nat.simps) simp

lemma str_nat_big: "\<not> n < 10 \<Longrightarrow> str_nat n = str_nat (n div 10) @ [digit_char (n mod 10)]"
  by (subst str_nat.simps) simp

lemma str_nat_nonempty: "str_nat n \<noteq> []"
  by (cases "n < 10") (simp_all add: str_nat_small str_nat_big)

lemma str_nat_hd: "\<exists>d<10. hd (str_nat n) = digit_char d"
proof (induction n rule: str_nat.induct)
  case (1 n)
  show ?case
  proof (cases "n < 10")
    case True
    then show ?thesis by (auto simp add: str_nat_small)
  next
    case False
    then show ?thesis using 1 by (simp add: str_nat_big str_nat_nonempty)
  qed
qed

lemma str_nat_inj: "str_nat a = str_nat b \<Longrightarrow> a = b"
proof (induction a arbitrary: b rule: str_nat.induct)
  case (1 n)
  show ?case
  proof (cases "n < 10")
    case True
    note n = this
    show ?thesis
    proof (cases "b < 10")
      case True
      then show ?thesis using n "1.prems" by (simp add: str_nat_small digit_char_inj)
    next
      case False
      then show ?thesis using n "1.prems" str_nat_nonempty[of "b div 10"]
        by (auto simp add: str_nat_small str_nat_big)
    qed
  next
    case False
    note n = this
    show ?thesis
    proof (cases "b < 10")
      case True
      then show ?thesis using n "1.prems" str_nat_nonempty[of "n div 10"]
        by (auto simp add: str_nat_small str_nat_big)
    next
      case False
      with n "1.prems" have e: "str_nat (n div 10) = str_nat (b div 10)"
        and d: "digit_char (n mod 10) = digit_char (b mod 10)"
        by (simp_all add: str_nat_big)
      have "n div 10 = b div 10" using "1.IH"[OF n e] .
      moreover have "n mod 10 = b mod 10" using d by (intro digit_char_inj) simp_all
      ultimately show ?thesis by (metis div_mult_mod_eq)
    qed
  qed
qed

lemma str_int_hd: "str_int i \<noteq> [] \<and> hd (str_int i) \<noteq> CHR ''/''"
proof (cases "i < 0")
  case True
  then show ?thesis by (simp add: str_int_def)
next
  case False
  obtain d where "d < 10" "hd (str_nat (nat i)) = digit_char d" using str_nat_hd by blast
  then show ?thesis using False by (simp add: str_int_def str_nat_nonempty digit_char_not_sep)
qed

lemma str_int_inj: "str_int a = str_int b \<Longrightarrow> a = b"
proof -
  assume e: "str_int a = str_int b"
  have neg: "hd (str_nat n) \<noteq> CHR ''-''" for n
    using str_nat_hd[of n] digit_char_not_sep by metis
  consider "a < 0" "b < 0" | "a < 0" "\<not> b < 0" | "\<not> a < 0" "b < 0" | "\<not> a < 0" "\<not> b < 0" by blast
  then show ?thesis
  proof cases
    case 1
    then have "str_nat (nat (- a)) = str_nat (nat (- b))" using e by (simp add: str_int_def)
    then have "nat (- a) = nat (- b)" by (rule str_nat_inj)
    then show ?thesis using 1 by simp
  next
    case 2
    then have "CHR ''-'' # str_nat (nat (- a)) = str_nat (nat b)" using e by (simp add: str_int_def)
    then have "hd (str_nat (nat b)) = CHR ''-''" by (metis list.sel(1))
    then show ?thesis using neg by blast
  next
    case 3
    then have "str_nat (nat a) = CHR ''-'' # str_nat (nat (- b))" using e by (simp add: str_int_def)
    then have "hd (str_nat (nat a)) = CHR ''-''" by (metis list.sel(1))
    then show ?thesis using neg by blast
  next
    case 4
    then have "str_nat (nat a) = str_nat (nat b)" using e by (simp add: str_int_def)
    then have "nat a = nat b" by (rule str_nat_inj)
    then show ?thesis using 4 by simp
  qed
qed

lemma path_join_str_int:
  "path_join folder (str_int i) =
     (if folder = [] \<or> last folder = CHR ''/'' then folder else folder @ ''/'') @ str_int i"
proof -
  obtain c cs where s: "str_int i = c # cs" and c: "c \<noteq> CHR ''/''"
    using str_int_hd[of i] by (cases "str_int i") auto
  show ?thesis by (simp add: path_join_def s c)
qed

lemma path_join_inj: "path_join folder (str_int a) = path_join folder (str_int b) \<Longrightarrow> a = b"
  by (simp add: path_join_str_int str_int_inj)


lemma path_join_not_folder: "path_join folder (str_int i) \<noteq> folder"
  using str_int_hd[of i] by (simp add: path_join_str_int)

lemma emitsD: "emits P m \<Longrightarrow> m w = (r, es, w') \<Longrightarrow> \<forall>e\<in>set es. P e"
proof -
  assume a: "emits P m" and b: "m w = (r, es, w')"
  have "\<forall>e\<in>set (fst (snd (m w))). P e" using a unfolding emits_def by (rule spec)
  then show ?thesis by (simp add: b)
qed

lemma emits_skip: "emits P skip"
  by (simp add: emits_def skip_def)

lemma emits_logger: "P (Log l m) \<Longrightarrow> emits P (logger l m)"
  by (simp add: emits_def logger_def)

lemma emits_call: "P ev \<Longrightarrow> emits P (call ev f)"
  by (simp add: emits_def call_def split: prod.splits option.splits)

lemma emits_seq: "emits P m \<Longrightarrow> (\<And>a. emits P (f a)) \<Longrightarrow> emits P (seq m f)"
proof -
  assume m: "emits P m" and f: "\<And>a. emits P (f a)"
  show "emits P (seq m f)"
    unfolding emits_def
  proof (intro allI ballI)
    fix w e
    assume e: "e \<in> set (fst (snd (seq m f w)))"
    obtain r es w1 where mw: "m w = (r, es, w1)" by (cases "m w") auto
    have es: "\<forall>x\<in>set es. P x" using m mw by (rule emitsD)
    show "P e"
    proof (cases r)
      case (Inl x)
      then show ?thesis using e es mw by (simp add: seq_def)
    next
      case (Inr a)
      obtain r2 es2 w2 where fw: "f a w1 = (r2, es2, w2)" by (cases "f a w1") auto
      have "\<forall>x\<in>set es2. P x" using f[of a] fw by (rule emitsD)
      then show ?thesis using e es mw Inr fw by (auto simp add: seq_def)
    qed
  qed
qed

lemma emits_create_directory:
  "P (Makedirs p) \<Longrightarrow> (\<And>l m. P (Log l m)) \<Longrightarrow> emits P (create_directory ops p)"
  by (auto simp add: emits_def create_directory_def split: prod.splits mkdir_outcome.splits)

lemma emits_fetch_lecture_info:
  "(\<And>u. P (HttpGet u)) \<Longrightarrow> (\<And>l m. P (Log l m)) \<Longrightarrow> emits P (fetch_lecture_info ops c l)"
  by (auto simp add: emits_def fetch_lecture_info_def request_def
      split: prod.splits reply.splits)

lemma dir_ok_simps:
  "dir_ok f t (Log l m)" "dir_ok f t (HttpGet u)" "dir_ok f t (Makedirs t)"
  "dir_ok f t (DownloadCaptions cs f n ls)" "dir_ok f t (ProcessAssets as f c i)"
  "dir_ok f t (DownloadM3U8 u t n)" "dir_ok f t (DownloadMPD u t n k)"
  by (simp_all add: dir_ok_def is_caption_or_asset_def)

lemma emits_captions_stage:
  "emits (dir_ok folder_path t) (captions_stage ops g lecture info folder_path lindex)"
  unfolding captions_stage_def
  by (auto intro!: emits_seq emits_logger emits_call emits_skip dir_ok_simps)

lemma emits_assets_stage:
  "emits (dir_ok folder_path t) (assets_stage ops lecture info course_id folder_path)"
  unfolding assets_stage_def
  by (auto intro!: emits_seq emits_logger emits_call emits_skip dir_ok_simps)

lemma emits_media_stage:
  "emits (dir_ok f t) (media_stage ops lecture info t lindex key)"
  unfolding media_stage_def Let_def
  by (auto intro!: emits_seq emits_logger emits_call emits_skip dir_ok_simps
      split: option.splits)

lemma emits_process_lecture:
  "emits (dir_ok folder_path (path_join folder_path (str_int (i_id lecture))))
     (process_lecture ops g chap lecture course_id folder_path lindex key)"
  unfolding process_lecture_def Let_def
  by (auto intro!: emits_seq emits_logger emits_skip emits_create_directory
      emits_fetch_lecture_info emits_captions_stage emits_assets_stage emits_media_stage
      dir_ok_simps)

text \<open>
  Claim C9, as the code has it. In a lecture's task the directory that is created and the
  directory given to the stream collaborators is the item's own directory, the chapter
  directory joined with \<^verbatim>\<open>str(id)\<close>; it is not the chapter directory, and items
  with different ids have different ones. The caption and the supplementary-asset
  collaborators are given the chapter directory itself, whenever the lecture has
  captions or assets.
\<close>

theorem task_directories:
  "(process_lecture ops g chap lecture course_id folder_path lindex key w = (r, es, w') \<longrightarrow>
      (\<forall>e\<in>set es. write_dir e = None \<or>
         write_dir e = Some (if is_caption_or_asset e then folder_path
                             else path_join folder_path (str_int (i_id lecture))))) \<and>
   (i_id a \<noteq> i_id b \<longrightarrow>
      path_join folder_path (str_int (i_id a)) \<noteq> path_join folder_path (str_int (i_id b))) \<and>
   path_join folder_path (str_int (i_id lecture)) \<noteq> folder_path \<and>
   (li_captions info \<noteq> [] \<longrightarrow>
      DownloadCaptions (li_captions info) folder_path (numbered ops lindex (i_title lecture))
        (g_captions g)
      \<in> set (fst (snd (captions_stage ops g lecture info folder_path lindex w)))) \<and>
   (i_supplementary_assets lecture \<noteq> [] \<longrightarrow>
      ProcessAssets (i_supplementary_assets lecture) folder_path course_id (li_id info)
      \<in> set (fst (snd (assets_stage ops lecture info course_id folder_path w))))"
proof (intro conjI impI)
  assume h: "process_lecture ops g chap lecture course_id folder_path lindex key w = (r, es, w')"
  have "\<forall>e\<in>set es. dir_ok folder_path (path_join folder_path (str_int (i_id lecture))) e"
    using emits_process_lecture[of folder_path lecture ops g chap course_id lindex key] h
    by (rule emitsD)
  then show "\<forall>e\<in>set es. write_dir e = None \<or>
         write_dir e = Some (if is_caption_or_asset e then folder_path
                             else path_join folder_path (str_int (i_id lecture)))"
    by (simp add: dir_ok_def)
next
  assume "i_id a \<noteq> i_id b"
  then show "path_join folder_path (str_int (i_id a)) \<noteq> path_join folder_path (str_int (i_id b))"
    using path_join_inj by blast
next
  show "path_join folder_path (str_int (i_id lecture)) \<noteq> folder_path"
    by (rule path_join_not_folder)
next
  assume "li_captions info \<noteq> []"
  then show "DownloadCaptions (li_captions info) folder_path (numbered ops lindex (i_title lecture))
        (g_captions g)
      \<in> set (fst (snd (captions_stage ops g lecture info folder_path lindex w)))"
    by (simp add: captions_stage_def seq_def logger_def call_def split: prod.splits option.splits)
next
  assume "i_supplementary_assets lecture \<noteq> []"
  then show "ProcessAssets (i_supplementary_assets lecture) folder_path course_id (li_id info)
      \<in> set (fst (snd (assets_stage ops lecture info course_id folder_path w)))"
    by (simp add: assets_stage_def seq_def logger_def call_def split: prod.splits option.splits)
qed


theorem task_directories_witness:
  "process_lecture
      (ex_ops (ex_table [])
         (ex_table [(''l/10'', ex_info 10 [Caption ''en'']
                                 [ex_source ''application/dash+xml'' ''d''])]))
      (ex_globals None)
      (ex_chapter 1 ''A'' [(ex_item ''lecture'' 10 ''L'')\<lparr>i_supplementary_assets := [Asset ''pdf'']\<rparr>])
      ((ex_item ''lecture'' 10 ''L'')\<lparr>i_supplementary_assets := [Asset ''pdf'']\<rparr>)
      7 ''course/1. A'' 1 None () =
     (Inr (),
      [Makedirs ''course/1. A/10'', HttpGet ''l/10'', Log INFO (DownloadingLecture ''L'' 1 1),
       Log INFO (DownloadingCaptions 1),
       DownloadCaptions [Caption ''en''] ''course/1. A'' ''1. L'' [''en_US''],
       Log INFO (DownloadingAssets 1),
       ProcessAssets [Asset ''pdf''] ''course/1. A'' 7 10,
       Log WARNING DrmProtected, DownloadMPD ''d'' ''course/1. A/10'' ''1. L'' None], ()) \<and>
   path_join ''course/1. A'' (str_int (i_id (ex_item ''lecture'' 10 ''L''))) \<noteq>
   path_join ''course/1. A'' (str_int (i_id (ex_item ''lecture'' 11 ''M''))) \<and>
   write_dir (DownloadCaptions [Caption ''en''] ''course/1. A'' ''1. L'' [''en_US'']) =
     Some ''course/1. A'' \<and>
   write_dir (DownloadMPD ''d'' ''course/1. A/10'' ''1. L'' None) = Some ''course/1. A/10''"
proof -
  let ?info = "ex_info 10 [Caption ''en''] [ex_source ''application/dash+xml'' ''d'']"
  let ?ops = "ex_ops (ex_table []) (ex_table [(''l/10'', ?info)]) :: unit ops"
  let ?lec = "(ex_item ''lecture'' 10 ''L'')\<lparr>i_supplementary_assets := [Asset ''pdf'']\<rparr>"
  let ?chap = "ex_chapter 1 ''A'' [?lec]"
  let ?es = "[Makedirs ''course/1. A/10'', HttpGet ''l/10'', Log INFO (DownloadingLecture ''L'' 1 1),
       Log INFO (DownloadingCaptions 1),
       DownloadCaptions [Caption ''en''] ''course/1. A'' ''1. L'' [''en_US''],
       Log INFO (DownloadingAssets 1),
       ProcessAssets [Asset ''pdf''] ''course/1. A'' 7 10,
       Log WARNING DrmProtected, DownloadMPD ''d'' ''course/1. A/10'' ''1. L'' None]"
  have id: "i_id ?lec = 10" by (simp add: ex_item_def)
  have tmp: "path_join ''course/1. A'' (str_int 10) = ''course/1. A/10''"
    by (simp add: path_join_def str_int_def str_nat.simps digit_char_def)
  have ev: "process_lecture ?ops (ex_globals None) ?chap ?lec 7 ''course/1. A'' 1 None () =
     (Inr (), ?es, ())"
    by (simp add: process_lecture_def create_directory_def fetch_lecture_info_def request_def
        captions_stage_def assets_stage_def media_stage_def seq_def logger_def call_def skip_def
        numbered_def Let_def path_join_def ex_ops_def ex_table_def ex_item_def ex_info_def
        ex_source_def ex_chapter_def ex_globals_def str_int_def str_nat.simps digit_char_def)
  have ne: "i_id (ex_item ''lecture'' 10 ''L'') \<noteq> i_id (ex_item ''lecture'' 11 ''M'')"
    by (simp add: ex_item_def)
  have cap: "li_captions ?info \<noteq> []" by (simp add: ex_info_def)
  have ast: "i_supplementary_assets ?lec \<noteq> []" by simp
  note t = task_directories[where ops = ?ops and g = "ex_globals None" and chap = ?chap
      and lecture = ?lec and course_id = 7 and folder_path = "''course/1. A''" and lindex = 1
      and key = None and w = "()" and r = "Inr ()" and es = ?es and w' = "()"
      and a = "ex_item ''lecture'' 10 ''L''" and b = "ex_item ''lecture'' 11 ''M''"
      and info = ?info]
  from t ev have all: "\<forall>e\<in>set ?es. write_dir e = None \<or>
         write_dir e = Some (if is_caption_or_asset e then ''course/1. A''
                             else path_join ''course/1. A'' (str_int (i_id ?lec)))"
    by blast
  from t ne have d: "path_join ''course/1. A'' (str_int (i_id (ex_item ''lecture'' 10 ''L''))) \<noteq>
     path_join ''course/1. A'' (str_int (i_id (ex_item ''lecture'' 11 ''M'')))"
    by blast
  from t cap have "DownloadCaptions (li_captions ?info) ''course/1. A''
        (numbered ?ops 1 (i_title ?lec)) (g_captions (ex_globals None))
      \<in> set (fst (snd (captions_stage ?ops (ex_globals None) ?lec ?info ''course/1. A'' 1 ())))"
    by blast
  from t ast have "ProcessAssets (i_supplementary_assets ?lec) ''course/1. A'' 7 (li_id ?info)
      \<in> set (fst (snd (assets_stage ?ops ?lec ?info 7 ''course/1. A'' ())))"
    by blast
  show ?thesis using ev d all by simp
qed

text \<open>
  Claim C9 as stated fails: the caption files of two lectures of one chapter go to the
  same directory, the chapter's, and not to the directories of the items.
\<close>

theorem shared_directory_counterexample:
  "run_tasks
      (ex_ops (ex_table [])
         (ex_table [(''l/10'', ex_info 10 [Caption ''en''] [ex_source ''application/dash+xml'' ''d1'']),
                    (''l/11'', ex_info 11 [Caption ''en''] [ex_source ''application/dash+xml'' ''d2''])]))
      (ex_globals None)
      (ex_chapter 1 ''A'' [ex_item ''lecture'' 10 ''L'', ex_item ''lecture'' 11 ''M''])
      7 ''course/1. A'' None 1 [ex_item ''lecture'' 10 ''L'', ex_item ''lecture'' 11 ''M''] () =
     ([Inr (), Inr ()],
      [Makedirs ''course/1. A/10'', HttpGet ''l/10'', Log INFO (DownloadingLecture ''L'' 1 2),
       Log INFO (DownloadingCaptions 1),
       DownloadCaptions [Caption ''en''] ''course/1. A'' ''1. L'' [''en_US''],
       Log WARNING DrmProtected, DownloadMPD ''d1'' ''course/1. A/10'' ''1. L'' None,
       Makedirs ''course/1. A/11'', HttpGet ''l/11'', Log INFO (DownloadingLecture ''M'' 2 2),
       Log INFO (DownloadingCaptions 1),
       DownloadCaptions [Caption ''en''] ''course/1. A'' ''2. M'' [''en_US''],
       Log WARNING DrmProtected, DownloadMPD ''d2'' ''course/1. A/11'' ''2. M'' None], ()) \<and>
   write_dir (DownloadCaptions [Caption ''en''] ''course/1. A'' ''1. L'' [''en_US'']) =
     Some ''course/1. A'' \<and>
   write_dir (DownloadCaptions [Caption ''en''] ''course/1. A'' ''2. M'' [''en_US'']) =
     Some ''course/1. A'' \<and>
   ''course/1. A'' \<noteq> ''course/1. A/10'' \<and> ''course/1. A'' \<noteq> ''course/1. A/11''"
  by (simp add: process_lecture_def create_directory_def fetch_lecture_info_def request_def
        captions_stage_def assets_stage_def media_stage_def seq_def logger_def call_def skip_def
        numbered_def Let_def path_join_def ex_ops_def ex_table_def ex_item_def ex_info_def
        ex_source_def ex_chapter_def ex_globals_def str_int_def str_nat.simps digit_char_def)

section \<open>Properties of the orchestrator\<close>

lemma quiet_skip: "quiet skip"
  by (simp add: quiet_def skip_def)

lemma quiet_logger: "quiet (logger l m)"
  by (simp add: quiet_def logger_def is_makedirs_def)

lemma quiet_call: "(\<And>w. fst (f w) = None) \<Longrightarrow> \<not> is_makedirs ev \<Longrightarrow> quiet (call ev f)"
proof -
  assume f: "\<And>w. fst (f w) = None" and ev: "\<not> is_makedirs ev"
  show ?thesis
    unfolding quiet_def
  proof
    fix w
    obtain r w1 where fw: "f w = (r, w1)" by (cases "f w") auto
    have "r = None" using f[of w] fw by simp
    then show "(\<exists>a. fst (call ev f w) = Inr a) \<and> filter is_makedirs (fst (snd (call ev f w))) = []"
      using ev fw by (simp add: call_def)
  qed
qed

lemma quiet_seq: "quiet m \<Longrightarrow> (\<And>a. quiet (f a)) \<Longrightarrow> quiet (seq m f)"
proof -
  assume m: "quiet m" and f: "\<And>a. quiet (f a)"
  show ?thesis
    unfolding quiet_def
  proof
    fix w
    obtain r es w1 where mw: "m w = (r, es, w1)" by (cases "m w") auto
    have "(\<exists>a. fst (m w) = Inr a) \<and> filter is_makedirs (fst (snd (m w))) = []"
      using m unfolding quiet_def by (rule spec)
    then obtain a where r: "r = Inr a" and es: "filter is_makedirs es = []"
      using mw by auto
    obtain r2 es2 w2 where fw: "f a w1 = (r2, es2, w2)" by (cases "f a w1") auto
    have "(\<exists>b. fst (f a w1) = Inr b) \<and> filter is_makedirs (fst (snd (f a w1))) = []"
      using f[of a] unfolding quiet_def by (rule spec)
    then obtain b where r2: "r2 = Inr b" and es2: "filter is_makedirs es2 = []"
      using fw by auto
    show "(\<exists>a. fst (seq m f w) = Inr a) \<and> filter is_makedirs (fst (snd (seq m f w))) = []"
      by (simp add: seq_def mw r fw r2 es es2)
  qed
qed

lemma quiet_fetch_lecture_info:
  assumes "no_failure ops"
  shows "quiet (fetch_lecture_info ops c l)"
  unfolding quiet_def
proof
  fix w
  obtain r w1 where g: "get_lecture_json ops (LECTURE_URL ops c l) w = (r, w1)"
    by (cases "get_lecture_json ops (LECTURE_URL ops c l) w") auto
  have "\<forall>u w. \<exists>info. fst (get_lecture_json ops u w) = Json info"
    using assms by (simp add: no_failure_def)
  then obtain info where "fst (get_lecture_json ops (LECTURE_URL ops c l) w) = Json info"
    by blast
  then have r: "r = Json info" using g by simp
  show "(\<exists>a. fst (fetch_lecture_info ops c l w) = Inr a) \<and>
        filter is_makedirs (fst (snd (fetch_lecture_info ops c l w))) = []"
    by (simp add: fetch_lecture_info_def request_def g r is_makedirs_def)
qed

lemma quiet_captions_stage:
  "no_failure ops \<Longrightarrow> quiet (captions_stage ops g lecture info folder_path lindex)"
  unfolding captions_stage_def
  by (auto intro!: quiet_seq quiet_logger quiet_call quiet_skip
      simp add: no_failure_def is_makedirs_def)

lemma quiet_assets_stage:
  "no_failure ops \<Longrightarrow> quiet (assets_stage ops lecture info course_id folder_path)"
  unfolding assets_stage_def
  by (auto intro!: quiet_seq quiet_logger quiet_call quiet_skip
      simp add: no_failure_def is_makedirs_def)

lemma quiet_media_stage:
  "no_failure ops \<Longrightarrow> quiet (media_stage ops lecture info t lindex key)"
  unfolding media_stage_def Let_def
  by (auto intro!: quiet_seq quiet_logger quiet_call quiet_skip
      simp add: no_failure_def is_makedirs_def split: option.splits)

lemma quiet_after_mkdir:
  "no_failure ops \<Longrightarrow>
   quiet (if i_class lecture = ''lecture'' then
          seq (fetch_lecture_info ops course_id (i_id lecture)) (\<lambda>lect_info.
          seq (logger INFO (DownloadingLecture (i_title lecture) lindex (length (children chap)))) (\<lambda>_.
          seq (captions_stage ops g lecture lect_info folder_path lindex) (\<lambda>_.
          seq (assets_stage ops lecture lect_info course_id folder_path) (\<lambda>_.
          media_stage ops lecture lect_info t lindex key))))
        else skip)"
  by (auto intro!: quiet_seq quiet_logger quiet_skip quiet_fetch_lecture_info
      quiet_captions_stage quiet_assets_stage quiet_media_stage)

lemma process_lecture_no_failure:
  assumes nf: "no_failure ops"
  shows "fst (process_lecture ops g chap lecture course_id folder_path lindex key w) = Inr () \<and>
         length (filter is_makedirs
           (fst (snd (process_lecture ops g chap lecture course_id folder_path lindex key w)))) = 1"
proof -
  let ?t = "path_join folder_path (str_int (i_id lecture))"
  let ?rest = "if i_class lecture = ''lecture'' then
          seq (fetch_lecture_info ops course_id (i_id lecture)) (\<lambda>lect_info.
          seq (logger INFO (DownloadingLecture (i_title lecture) lindex (length (children chap)))) (\<lambda>_.
          seq (captions_stage ops g lecture lect_info folder_path lindex) (\<lambda>_.
          seq (assets_stage ops lecture lect_info course_id folder_path) (\<lambda>_.
          media_stage ops lecture lect_info ?t lindex key))))
        else skip"
  have pl: "process_lecture ops g chap lecture course_id folder_path lindex key =
      seq (create_directory ops ?t) (\<lambda>_. ?rest)"
    by (simp add: process_lecture_def Let_def)
  obtain o1 w1 where mk: "makedirs ops ?t w = (o1, w1)" by (cases "makedirs ops ?t w") auto
  have "o1 \<noteq> MkdirError" using nf mk unfolding no_failure_def by (metis fst_conv)
  then obtain es1 where cd: "create_directory ops ?t w = (Inr (), es1, w1)"
    and n1: "length (filter is_makedirs es1) = 1"
    by (cases o1) (simp_all add: create_directory_def mk is_makedirs_def)
  obtain r2 es2 w2 where rw: "?rest w1 = (r2, es2, w2)" by (cases "?rest w1") auto
  have "(\<exists>a. fst (?rest w1) = Inr a) \<and> filter is_makedirs (fst (snd (?rest w1))) = []"
    using quiet_after_mkdir[OF nf, of lecture course_id lindex chap g folder_path ?t key]
    unfolding quiet_def by (rule spec)
  then have r2: "r2 = Inr ()" and n2: "filter is_makedirs es2 = []"
    using rw by auto
  show ?thesis
    unfolding pl by (simp add: seq_def cd rw r2 n1 n2)
qed

lemma run_tasks_Cons:
  "process_lecture ops g chap l course_id folder_path lindex key w = (r, es, w1) \<Longrightarrow>
   run_tasks ops g chap course_id folder_path key (Suc lindex) ls w1 = (rs, es2, w2) \<Longrightarrow>
   run_tasks ops g chap course_id folder_path key lindex (l # ls) w = (r # rs, es @ es2, w2)"
  by simp

lemma download_chapters_Cons:
  "run_tasks ops g chap course_id (path_join (g_COURSE_DIR g) (numbered ops mindex (c_title chap)))
     (g_key g) (Suc 0) (children chap) w = (rs, es, w1) \<Longrightarrow>
   download_chapters ops g course_id n mindex (chap # rest) w =
     (case collect rs of
        Some e \<Rightarrow> (Inl e, Log INFO (DownloadingChapter (c_title chap) mindex n) # es, w1)
      | None \<Rightarrow>
          (case download_chapters ops g course_id n (Suc mindex) rest w1 of
             (r, es2, w2) \<Rightarrow>
               (r, Log INFO (DownloadingChapter (c_title chap) mindex n) # es @ es2, w2)))"
  by (simp add: Let_def split: option.splits)

lemma is_makedirs_Log: "\<not> is_makedirs (Log l m)"
  by (simp add: is_makedirs_def)

lemma run_tasks_no_failure:
  "no_failure ops \<Longrightarrow>
   collect (fst (run_tasks ops g chap course_id folder_path key lindex ls w)) = None \<and>
   length (filter is_makedirs
     (fst (snd (run_tasks ops g chap course_id folder_path key lindex ls w)))) = length ls"
proof (induction ls arbitrary: lindex w)
  case Nil
  show ?case by simp
next
  case (Cons l ls)
  obtain r es w1 where p: "process_lecture ops g chap l course_id folder_path lindex key w = (r, es, w1)"
    by (cases "process_lecture ops g chap l course_id folder_path lindex key w") auto
  have r: "r = Inr ()" and n: "length (filter is_makedirs es) = 1"
    using process_lecture_no_failure[OF Cons.prems, of g chap l course_id folder_path lindex key w] p
    by simp_all
  obtain rs es2 w2 where t: "run_tasks ops g chap course_id folder_path key (Suc lindex) ls w1 = (rs, es2, w2)"
    by (cases "run_tasks ops g chap course_id folder_path key (Suc lindex) ls w1") auto
  have "collect rs = None" and "length (filter is_makedirs es2) = length ls"
    using Cons.IH[OF Cons.prems, of "Suc lindex" w1] t by simp_all
  then show ?case unfolding run_tasks_Cons[OF p t] by (simp add: r n)
qed

lemma download_chapters_no_failure:
  "no_failure ops \<Longrightarrow>
   fst (download_chapters ops g course_id n mindex chs w) = Inr () \<and>
   length (filter is_makedirs (fst (snd (download_chapters ops g course_id n mindex chs w)))) =
     length (concat (map children chs))"
proof (induction chs arbitrary: mindex w)
  case Nil
  show ?case by simp
next
  case (Cons c chs)
  let ?f = "path_join (g_COURSE_DIR g) (numbered ops mindex (c_title c))"
  obtain rs es w1 where t: "run_tasks ops g c course_id ?f (g_key g) (Suc 0) (children c) w = (rs, es, w1)"
    by (cases "run_tasks ops g c course_id ?f (g_key g) (Suc 0) (children c) w") auto
  have c: "collect rs = None" and n: "length (filter is_makedirs es) = length (children c)"
    using run_tasks_no_failure[OF Cons.prems, of g c course_id ?f "g_key g" "Suc 0" "children c" w] t
    by simp_all
  obtain r es2 w2 where d: "download_chapters ops g course_id n (Suc mindex) chs w1 = (r, es2, w2)"
    by (cases "download_chapters ops g course_id n (Suc mindex) chs w1") auto
  have "r = Inr ()" and "length (filter is_makedirs es2) = length (concat (map children chs))"
    using Cons.IH[OF Cons.prems, of "Suc mindex" w1] d by simp_all
  then show ?case
    unfolding download_chapters_Cons[OF t] by (simp add: c n d is_makedirs_Log)
qed


lemma run_tasks_length:
  "length (fst (run_tasks ops g chap course_id folder_path key lindex ls w)) = length ls"
proof (induction ls arbitrary: lindex w)
  case Nil
  show ?case by simp
next
  case (Cons l ls)
  obtain r es w1 where p: "process_lecture ops g chap l course_id folder_path lindex key w = (r, es, w1)"
    by (cases "process_lecture ops g chap l course_id folder_path lindex key w") auto
  obtain rs es2 w2 where t: "run_tasks ops g chap course_id folder_path key (Suc lindex) ls w1 = (rs, es2, w2)"
    by (cases "run_tasks ops g chap course_id folder_path key (Suc lindex) ls w1") auto
  have "length rs = length ls" using Cons.IH[of "Suc lindex" w1] t by simp
  then show ?case unfolding run_tasks_Cons[OF p t] by simp
qed

lemma fetch_fails:
  assumes "\<forall>w info. fst (get_lecture_json ops (LECTURE_URL ops c l) w) \<noteq> Json info"
  shows "fst (fetch_lecture_info ops c l w) = Inl (SystemExit 1)"
proof -
  obtain r w1 where g: "get_lecture_json ops (LECTURE_URL ops c l) w = (r, w1)"
    by (cases "get_lecture_json ops (LECTURE_URL ops c l) w") auto
  have "\<forall>info. r \<noteq> Json info" using assms g by (metis fst_conv)
  then show ?thesis
    by (cases r) (simp_all add: fetch_lecture_info_def request_def g)
qed

lemma process_lecture_fetch_fails:
  assumes cl: "i_class lecture = ''lecture''"
    and ff: "\<forall>w info. fst (get_lecture_json ops (LECTURE_URL ops course_id (i_id lecture)) w) \<noteq> Json info"
  shows "fst (process_lecture ops g chap lecture course_id folder_path lindex key w) = Inl (SystemExit 1)"
proof -
  let ?t = "path_join folder_path (str_int (i_id lecture))"
  obtain o1 w1 where mk: "makedirs ops ?t w = (o1, w1)" by (cases "makedirs ops ?t w") auto
  obtain r2 es2 w2 where f: "fetch_lecture_info ops course_id (i_id lecture) w1 = (r2, es2, w2)"
    by (cases "fetch_lecture_info ops course_id (i_id lecture) w1") auto
  have r2: "r2 = Inl (SystemExit 1)" using fetch_fails[OF ff, of w1] f by simp
  show ?thesis
    by (cases o1)
       (simp_all add: process_lecture_def Let_def seq_def create_directory_def mk cl f r2)
qed

lemma run_tasks_fetch_fails:
  assumes cl: "i_class lecture = ''lecture''"
    and ff: "\<forall>w info. fst (get_lecture_json ops (LECTURE_URL ops course_id (i_id lecture)) w) \<noteq> Json info"
  shows "lecture \<in> set ls \<Longrightarrow>
    Inl (SystemExit 1) \<in> set (fst (run_tasks ops g chap course_id folder_path key lindex ls w))"
proof (induction ls arbitrary: lindex w)
  case Nil
  then show ?case by simp
next
  case (Cons l ls)
  obtain r es w1 where p: "process_lecture ops g chap l course_id folder_path lindex key w = (r, es, w1)"
    by (cases "process_lecture ops g chap l course_id folder_path lindex key w") auto
  obtain rs es2 w2 where t: "run_tasks ops g chap course_id folder_path key (Suc lindex) ls w1 = (rs, es2, w2)"
    by (cases "run_tasks ops g chap course_id folder_path key (Suc lindex) ls w1") auto
  show ?case
  proof (cases "lecture = l")
    case True
    have "r = Inl (SystemExit 1)"
      using process_lecture_fetch_fails[OF cl ff, of g chap folder_path lindex key w] p True
      by simp
    then show ?thesis unfolding run_tasks_Cons[OF p t] by simp
  next
    case False
    then have "lecture \<in> set ls" using Cons.prems by simp
    from Cons.IH[OF this, of "Suc lindex" w1] t have "Inl (SystemExit 1) \<in> set rs" by simp
    then show ?thesis unfolding run_tasks_Cons[OF p t] by simp
  qed
qed




text \<open>The definitions that a run on the example inputs unfolds.\<close>

lemmas ex_run_defs =
  download_course_def process_lecture_def create_directory_def fetch_lecture_info_def
  request_def captions_stage_def assets_stage_def media_stage_def seq_def logger_def call_def
  skip_def numbered_def Let_def path_join_def ex_ops_def ex_table_def ex_always_def ex_item_def
  ex_info_def ex_source_def ex_chapter_def ex_globals_def new_chapter_def str_int_def
  str_nat.simps digit_char_def

text \<open>
  Claim C5 against the code. The thread count of the command line does not reach the
  download: \<^verbatim>\<open>main\<close> does the same for every value of \<^verbatim>\<open>--threads\<close>, and the pool
  is always created with one worker. With \<^verbatim>\<open>--threads 4\<close> and a chapter of two
  lectures the pool has the bound 1 and the second lecture's task starts after the
  first has ended.
\<close>

theorem pool_bound_ignores_threads:
  "main_download ops (a\<lparr>a_threads := n\<rparr>) course_dir course_id curric =
     main_download ops a course_dir course_id curric \<and>
   (\<exists>es. fst (snd (download_course ops g course_id curric w)) = ThreadPoolExecutor 1 # es) \<and>
   main_download
      (ex_ops (ex_table [])
         (ex_table [(''l/10'', ex_info 10 [] [ex_source ''application/dash+xml'' ''d1'']),
                    (''l/11'', ex_info 11 [] [ex_source ''application/dash+xml'' ''d2''])]))
      \<lparr>a_key = Some ''k:v'', a_threads = 4, a_captions = None\<rparr> ''course'' 7
      [ex_chapter 1 ''A'' [ex_item ''lecture'' 10 ''L'', ex_item ''lecture'' 11 ''M'']] () =
     (Inr (),
      [Log INFO DownloadStarting,
       ThreadPoolExecutor 1,
       Log INFO (DownloadingChapter ''A'' 1 1),
       Makedirs ''course/1. A/10'', HttpGet ''l/10'', Log INFO (DownloadingLecture ''L'' 1 2),
       DownloadMPD ''d1'' ''course/1. A/10'' ''1. L'' (Some ''k:v''),
       Makedirs ''course/1. A/11'', HttpGet ''l/11'', Log INFO (DownloadingLecture ''M'' 2 2),
       DownloadMPD ''d2'' ''course/1. A/11'' ''2. M'' (Some ''k:v''),
       Log INFO AllDownloaded, Log INFO DownloadComplete], ())"
proof (intro conjI)
  show "main_download ops (a\<lparr>a_threads := n\<rparr>) course_dir course_id curric =
     main_download ops a course_dir course_id curric"
    by (simp add: main_download_def)
  show "\<exists>es. fst (snd (download_course ops g course_id curric w)) = ThreadPoolExecutor 1 # es"
    by (simp add: download_course_def split: prod.splits)
  show "main_download
      (ex_ops (ex_table [])
         (ex_table [(''l/10'', ex_info 10 [] [ex_source ''application/dash+xml'' ''d1'']),
                    (''l/11'', ex_info 11 [] [ex_source ''application/dash+xml'' ''d2''])]))
      \<lparr>a_key = Some ''k:v'', a_threads = 4, a_captions = None\<rparr> ''course'' 7
      [ex_chapter 1 ''A'' [ex_item ''lecture'' 10 ''L'', ex_item ''lecture'' 11 ''M'']] () =
     (Inr (),
      [Log INFO DownloadStarting,
       ThreadPoolExecutor 1,
       Log INFO (DownloadingChapter ''A'' 1 1),
       Makedirs ''course/1. A/10'', HttpGet ''l/10'', Log INFO (DownloadingLecture ''L'' 1 2),
       DownloadMPD ''d1'' ''course/1. A/10'' ''1. L'' (Some ''k:v''),
       Makedirs ''course/1. A/11'', HttpGet ''l/11'', Log INFO (DownloadingLecture ''M'' 2 2),
       DownloadMPD ''d2'' ''course/1. A/11'' ''2. M'' (Some ''k:v''),
       Log INFO AllDownloaded, Log INFO DownloadComplete], ())"
    by (simp add: main_download_def ex_run_defs)
qed

section \<open>Failures of a lecture task\<close>

lemma seq_Inl: "m w = (Inl e, es, wa) \<Longrightarrow> seq m f w = (Inl e, es, wa)"
  by (simp add: seq_def)

lemma seq_Inr: "m w = (Inr a, es, wa) \<Longrightarrow> f a wa = (r, esb, wb) \<Longrightarrow> seq m f w = (r, es @ esb, wb)"
  by (simp add: seq_def)








lemma run_tasks_append:
  "run_tasks ops g chap course_id folder_path key lindex (xs @ ys) w =
     (case run_tasks ops g chap course_id folder_path key lindex xs w of
        (rsa, esa, wa) \<Rightarrow>
          (case run_tasks ops g chap course_id folder_path key (lindex + length xs) ys wa of
             (rsb, esb, wb) \<Rightarrow> (rsa @ rsb, esa @ esb, wb)))"
proof (induction xs arbitrary: lindex w)
  case Nil
  show ?case by (simp split: prod.splits)
next
  case (Cons x xs)
  show ?case
    by (simp add: Cons.IH split: prod.splits)
qed

lemma run_tasks_split:
  "run_tasks ops g chap course_id folder_path key lindex (before @ lecture # after) w =
     (case run_tasks ops g chap course_id folder_path key lindex before w of
        (rsa, esa, wa) \<Rightarrow>
          (case process_lecture ops g chap lecture course_id folder_path
                  (lindex + length before) key wa of
             (r, es, wb) \<Rightarrow>
               (case run_tasks ops g chap course_id folder_path key
                       (Suc (lindex + length before)) after wb of
                  (rsb, esb, wc) \<Rightarrow> (rsa @ r # rsb, esa @ es @ esb, wc))))"
  by (simp add: run_tasks_append split: prod.splits)













section \<open>The decryption key\<close>

lemma process_lecture_dash_no_key:
  assumes "i_class lecture = ''lecture''" and "\<not> i_is_free lecture"
    and "create_directory ops (path_join folder_path (str_int (i_id lecture))) w = (Inr (), esa, wa)"
    and "fetch_lecture_info ops course_id (i_id lecture) wa = (Inr info, esb, wb)"
    and "captions_stage ops g lecture info folder_path lindex wb = (Inr (), esc, wc)"
    and "assets_stage ops lecture info course_id folder_path wc = (Inr (), esd, wd)"
    and "first_src ''application/dash+xml'' (li_media_sources info) = Some u"
  shows "process_lecture ops g chap lecture course_id folder_path lindex None w =
        (case download_and_merge_mpd ops u (path_join folder_path (str_int (i_id lecture)))
                (numbered ops lindex (i_title lecture)) None wd of
           (r, we) \<Rightarrow>
             ((case r of None \<Rightarrow> Inr () | Some e \<Rightarrow> Inl e),
              esa @ esb @
              [Log INFO (DownloadingLecture (i_title lecture) lindex (length (children chap)))] @
              esc @ esd @
              [Log WARNING DrmProtected,
               DownloadMPD u (path_join folder_path (str_int (i_id lecture)))
                 (numbered ops lindex (i_title lecture)) None],
              we))"
  using assms
  by (simp add: process_lecture_def media_stage_def Let_def seq_def logger_def call_def
      split: prod.splits option.splits)

lemma quietD: "quiet m \<Longrightarrow> \<exists>a es wa. m w = (Inr a, es, wa)"
proof -
  assume "quiet m"
  then have "(\<exists>a. fst (m w) = Inr a) \<and> filter is_makedirs (fst (snd (m w))) = []"
    unfolding quiet_def by (rule spec)
  then obtain a where "fst (m w) = Inr a" by blast
  then show ?thesis by (cases "m w") auto
qed

lemma process_lecture_no_key:
  assumes nf: "no_failure ops"
    and cl: "i_class lecture = ''lecture''" and paid: "\<not> i_is_free lecture"
    and served: "\<forall>w. fst (get_lecture_json ops (LECTURE_URL ops course_id (i_id lecture)) w) = Json info"
    and src: "first_src ''application/dash+xml'' (li_media_sources info) = Some u"
  shows "\<exists>es wz. process_lecture ops g chap lecture course_id folder_path lindex None w =
      (Inr (), es @ [Log WARNING DrmProtected,
               DownloadMPD u (path_join folder_path (str_int (i_id lecture)))
                 (numbered ops lindex (i_title lecture)) None], wz)"
proof -
  let ?t = "path_join folder_path (str_int (i_id lecture))"
  obtain oa wa where mk: "makedirs ops ?t w = (oa, wa)" by (cases "makedirs ops ?t w") auto
  have "oa \<noteq> MkdirError" using nf mk unfolding no_failure_def by (metis fst_conv)
  then obtain esa where cd: "create_directory ops ?t w = (Inr (), esa, wa)"
    by (cases oa) (simp_all add: create_directory_def mk)
  obtain rb wb where gl: "get_lecture_json ops (LECTURE_URL ops course_id (i_id lecture)) wa = (rb, wb)"
    by (cases "get_lecture_json ops (LECTURE_URL ops course_id (i_id lecture)) wa") auto
  have rb: "rb = Json info" using served gl by (metis fst_conv)
  have fl: "fetch_lecture_info ops course_id (i_id lecture) wa =
      (Inr info, [HttpGet (LECTURE_URL ops course_id (i_id lecture))], wb)"
    by (simp add: fetch_lecture_info_def request_def gl rb)
  obtain esc wc where cs: "captions_stage ops g lecture info folder_path lindex wb = (Inr (), esc, wc)"
    using quietD[OF quiet_captions_stage[OF nf], of g lecture info folder_path lindex wb] by auto
  obtain esd wd where as: "assets_stage ops lecture info course_id folder_path wc = (Inr (), esd, wd)"
    using quietD[OF quiet_assets_stage[OF nf], of lecture info course_id folder_path wc] by auto
  obtain rm we where dm: "download_and_merge_mpd ops u ?t (numbered ops lindex (i_title lecture)) None wd = (rm, we)"
    by (cases "download_and_merge_mpd ops u ?t (numbered ops lindex (i_title lecture)) None wd") auto
  have rm: "rm = None" using nf dm unfolding no_failure_def by (metis fst_conv)
  show ?thesis
    unfolding process_lecture_dash_no_key[OF cl paid cd fl cs as src]
    by (simp add: dm rm)
qed

lemma run_tasks_no_key:
  assumes nf: "no_failure ops"
    and cl: "i_class lecture = ''lecture''" and paid: "\<not> i_is_free lecture"
    and served: "\<forall>w. fst (get_lecture_json ops (LECTURE_URL ops course_id (i_id lecture)) w) = Json info"
    and src: "first_src ''application/dash+xml'' (li_media_sources info) = Some u"
  shows "\<exists>esx esy. fst (snd (run_tasks ops g chap course_id folder_path None lindex
            (before @ lecture # after) w)) =
      esx @ [Log WARNING DrmProtected,
             DownloadMPD u (path_join folder_path (str_int (i_id lecture)))
               (numbered ops (lindex + length before) (i_title lecture)) None] @ esy"
proof -
  obtain rsa esa wa where a: "run_tasks ops g chap course_id folder_path None lindex before w = (rsa, esa, wa)"
    by (cases "run_tasks ops g chap course_id folder_path None lindex before w") auto
  obtain es wb where p: "process_lecture ops g chap lecture course_id folder_path
      (lindex + length before) None wa =
      (Inr (), es @ [Log WARNING DrmProtected,
               DownloadMPD u (path_join folder_path (str_int (i_id lecture)))
                 (numbered ops (lindex + length before) (i_title lecture)) None], wb)"
    using process_lecture_no_key[OF nf cl paid served src, of g chap folder_path
        "lindex + length before" wa]
    by auto
  obtain rsb esb wc where b: "run_tasks ops g chap course_id folder_path None
      (Suc (lindex + length before)) after wb = (rsb, esb, wc)"
    by (cases "run_tasks ops g chap course_id folder_path None (Suc (lindex + length before)) after wb") auto
  have "fst (snd (run_tasks ops g chap course_id folder_path None lindex
            (before @ lecture # after) w)) =
      (esa @ es) @ [Log WARNING DrmProtected,
             DownloadMPD u (path_join folder_path (str_int (i_id lecture)))
               (numbered ops (lindex + length before) (i_title lecture)) None] @ esb"
    unfolding run_tasks_split by (simp add: a p b)
  then show ?thesis by blast
qed

lemma download_chapters_append:
  "no_failure ops \<Longrightarrow>
   download_chapters ops g course_id n mindex (pre @ chs) w =
     (case download_chapters ops g course_id n mindex pre w of
        (ra, esa, wa) \<Rightarrow>
          (case download_chapters ops g course_id n (mindex + length pre) chs wa of
             (rb, esb, wb) \<Rightarrow> (rb, esa @ esb, wb)))"
proof (induction pre arbitrary: mindex w)
  case Nil
  show ?case by (simp split: prod.splits)
next
  case (Cons c pre)
  let ?f = "path_join (g_COURSE_DIR g) (numbered ops mindex (c_title c))"
  obtain rs es wa where t: "run_tasks ops g c course_id ?f (g_key g) (Suc 0) (children c) w = (rs, es, wa)"
    by (cases "run_tasks ops g c course_id ?f (g_key g) (Suc 0) (children c) w") auto
  have c: "collect rs = None"
    using run_tasks_no_failure[OF Cons.prems, of g c course_id ?f "g_key g" "Suc 0" "children c" w] t
    by simp
  have e1: "download_chapters ops g course_id n mindex ((c # pre) @ chs) w =
      (case download_chapters ops g course_id n (Suc mindex) (pre @ chs) wa of
             (r, es2, w2) \<Rightarrow>
               (r, Log INFO (DownloadingChapter (c_title c) mindex n) # es @ es2, w2))"
    using download_chapters_Cons[OF t, where rest = "pre @ chs" and n = n] by (simp add: c)
  have e2: "download_chapters ops g course_id n mindex (c # pre) w =
      (case download_chapters ops g course_id n (Suc mindex) pre wa of
             (r, es2, w2) \<Rightarrow>
               (r, Log INFO (DownloadingChapter (c_title c) mindex n) # es @ es2, w2))"
    using download_chapters_Cons[OF t, where rest = pre and n = n] by (simp add: c)
  show ?case
    unfolding e1 e2 Cons.IH[OF Cons.prems]
    by (simp split: prod.splits)
qed

lemma download_chapters_no_key:
  assumes nf: "no_failure ops" and k: "g_key g = None"
    and ch: "children chap = before @ lecture # after"
    and cl: "i_class lecture = ''lecture''" and paid: "\<not> i_is_free lecture"
    and served: "\<forall>w. fst (get_lecture_json ops (LECTURE_URL ops course_id (i_id lecture)) w) = Json info"
    and src: "first_src ''application/dash+xml'' (li_media_sources info) = Some u"
  shows "\<exists>esx esy. fst (snd (download_chapters ops g course_id n mindex (pre @ chap # rest) w)) =
      esx @ [Log WARNING DrmProtected,
             DownloadMPD u
               (path_join (path_join (g_COURSE_DIR g)
                  (numbered ops (mindex + length pre) (c_title chap))) (str_int (i_id lecture)))
               (numbered ops (Suc (length before)) (i_title lecture)) None] @ esy"
proof -
  let ?mi = "mindex + length pre"
  let ?f = "path_join (g_COURSE_DIR g) (numbered ops ?mi (c_title chap))"
  let ?X = "[Log WARNING DrmProtected,
             DownloadMPD u (path_join ?f (str_int (i_id lecture)))
               (numbered ops (Suc (length before)) (i_title lecture)) None]"
  obtain ra esa wa where a: "download_chapters ops g course_id n mindex pre w = (ra, esa, wa)"
    by (cases "download_chapters ops g course_id n mindex pre w") auto
  obtain rs es wb where t: "run_tasks ops g chap course_id ?f (g_key g) (Suc 0) (children chap) wa = (rs, es, wb)"
    by (cases "run_tasks ops g chap course_id ?f (g_key g) (Suc 0) (children chap) wa") auto
  have c: "collect rs = None"
    using run_tasks_no_failure[OF nf, of g chap course_id ?f "g_key g" "Suc 0" "children chap" wa] t
    by simp
  obtain esx esy where es: "es = esx @ ?X @ esy"
    using run_tasks_no_key[OF nf cl paid served src, of g chap ?f "Suc 0" before after wa] t
    unfolding k ch by auto
  obtain rc esc wc where r: "download_chapters ops g course_id n (Suc ?mi) rest wb = (rc, esc, wc)"
    by (cases "download_chapters ops g course_id n (Suc ?mi) rest wb") auto
  have "fst (snd (download_chapters ops g course_id n mindex (pre @ chap # rest) w)) =
      (esa @ Log INFO (DownloadingChapter (c_title chap) ?mi n) # esx) @ ?X @ (esy @ esc)"
    unfolding download_chapters_append[OF nf] a
    using download_chapters_Cons[OF t, where rest = rest and n = n]
    by (simp add: c r es)
  then show ?thesis by blast
qed


lemma download_course_no_key:
  assumes nf: "no_failure ops" and k: "g_key g = None"
    and ch: "children chap = before @ lecture # after"
    and cl: "i_class lecture = ''lecture''" and paid: "\<not> i_is_free lecture"
    and served: "\<forall>w. fst (get_lecture_json ops (LECTURE_URL ops course_id (i_id lecture)) w) = Json info"
    and src: "first_src ''application/dash+xml'' (li_media_sources info) = Some u"
  shows "\<exists>esx esy wz. download_course ops g course_id (pre @ chap # rest) w =
      (Inr (), esx @ [Log WARNING DrmProtected,
             DownloadMPD u
               (path_join (path_join (g_COURSE_DIR g)
                  (numbered ops (Suc (length pre)) (c_title chap))) (str_int (i_id lecture)))
               (numbered ops (Suc (length before)) (i_title lecture)) None] @ esy, wz)"
proof -
  let ?cur = "pre @ chap # rest"
  let ?X = "[Log WARNING DrmProtected,
             DownloadMPD u
               (path_join (path_join (g_COURSE_DIR g)
                  (numbered ops (Suc (length pre)) (c_title chap))) (str_int (i_id lecture)))
               (numbered ops (Suc (length before)) (i_title lecture)) None]"
  obtain r es wz where d: "download_chapters ops g course_id (length ?cur) (Suc 0) ?cur w = (r, es, wz)"
    by (cases "download_chapters ops g course_id (length ?cur) (Suc 0) ?cur w") auto
  have r: "r = Inr ()"
    using download_chapters_no_failure[OF nf, of g course_id "length ?cur" "Suc 0" ?cur w] d
    by simp
  obtain esx esy where es: "es = esx @ ?X @ esy"
    using download_chapters_no_key[OF nf k ch cl paid served src, of "length ?cur" "Suc 0" pre rest w] d
    by auto
  have dc: "download_course ops g course_id ?cur w =
      (case download_chapters ops g course_id (length ?cur) (Suc 0) ?cur w of
        (r, es, wa) \<Rightarrow> (r, ThreadPoolExecutor 1 # es, wa))"
    unfolding download_course_def One_nat_def by (rule refl)
  have "download_course ops g course_id ?cur w =
      (Inr (), (ThreadPoolExecutor 1 # esx) @ ?X @ esy, wz)"
    unfolding dc d by (simp add: r es)
  then show ?thesis by blast
qed

text \<open>
  Claim C8. For a paid lecture with a DASH source and no key, the media stage logs the
  DRM warning and then calls the DASH collaborator with the key \<^verbatim>\<open>None\<close>; its result
  is the collaborator's. A lecture task that reaches the media stage does exactly this.
  The key of the task is the process-wide key: when no key is configured and nothing
  else fails, \<^verbatim>\<open>download_course\<close>, and \<^verbatim>\<open>main\<close> with it, returns normally,
  and for every paid lecture with a DASH source, in whatever chapter and at whatever
  place among its siblings, the run holds the DRM warning followed at once by the call
  of the DASH collaborator for that lecture, in the lecture's own directory, with the
  key \<^verbatim>\<open>None\<close>.
\<close>

theorem missing_key_warns_and_downloads:
  "(\<not> i_is_free lecture \<and>
    first_src ''application/dash+xml'' (li_media_sources info) = Some u \<longrightarrow>
      media_stage ops lecture info temp_folder_path lindex None w =
        (case download_and_merge_mpd ops u temp_folder_path
                (numbered ops lindex (i_title lecture)) None w of
           (r, w') \<Rightarrow>
             ((case r of None \<Rightarrow> Inr () | Some e \<Rightarrow> Inl e),
              [Log WARNING DrmProtected,
               DownloadMPD u temp_folder_path (numbered ops lindex (i_title lecture)) None],
              w'))) \<and>
   (i_class lecture = ''lecture'' \<and> \<not> i_is_free lecture \<and>
    create_directory ops (path_join folder_path (str_int (i_id lecture))) w = (Inr (), esa, wa) \<and>
    fetch_lecture_info ops course_id (i_id lecture) wa = (Inr info, esb, wb) \<and>
    captions_stage ops g lecture info folder_path lindex wb = (Inr (), esc, wc) \<and>
    assets_stage ops lecture info course_id folder_path wc = (Inr (), esd, wd) \<and>
    first_src ''application/dash+xml'' (li_media_sources info) = Some u \<longrightarrow>
      process_lecture ops g chap lecture course_id folder_path lindex None w =
        (case download_and_merge_mpd ops u (path_join folder_path (str_int (i_id lecture)))
                (numbered ops lindex (i_title lecture)) None wd of
           (r, we) \<Rightarrow>
             ((case r of None \<Rightarrow> Inr () | Some e \<Rightarrow> Inl e),
              esa @ esb @
              [Log INFO (DownloadingLecture (i_title lecture) lindex (length (children chap)))] @
              esc @ esd @
              [Log WARNING DrmProtected,
               DownloadMPD u (path_join folder_path (str_int (i_id lecture)))
                 (numbered ops lindex (i_title lecture)) None],
              we))) \<and>
   (a_key a = None \<longrightarrow>
      main_download ops a course_dir course_id curric =
        seq (logger INFO DownloadStarting) (\<lambda>_.
        seq (download_course ops
               \<lparr>g_key = None,
                g_captions = (case a_captions a of None \<Rightarrow> [''en_US'']
                   | Some c \<Rightarrow> if c = [] then [''en_US''] else split_on CHR '','' c),
                g_COURSE_DIR = course_dir\<rparr> course_id curric) (\<lambda>_.
        seq (logger INFO AllDownloaded) (\<lambda>_. logger INFO DownloadComplete)))) \<and>
   (no_failure ops \<and> g_key g = None \<and> children chap = before @ lecture # after \<and>
    i_class lecture = ''lecture'' \<and> \<not> i_is_free lecture \<and>
    (\<forall>w. fst (get_lecture_json ops (LECTURE_URL ops course_id (i_id lecture)) w) = Json info) \<and>
    first_src ''application/dash+xml'' (li_media_sources info) = Some u \<longrightarrow>
      (\<exists>esx esy wz. download_course ops g course_id (pre @ chap # rest) w =
         (Inr (),
          esx @ [Log WARNING DrmProtected,
                 DownloadMPD u
                   (path_join (path_join (g_COURSE_DIR g)
                      (numbered ops (Suc (length pre)) (c_title chap))) (str_int (i_id lecture)))
                   (numbered ops (Suc (length before)) (i_title lecture)) None] @ esy, wz))) \<and>
   (no_failure ops \<and> a_key a = None \<and> children chap = before @ lecture # after \<and>
    i_class lecture = ''lecture'' \<and> \<not> i_is_free lecture \<and>
    (\<forall>w. fst (get_lecture_json ops (LECTURE_URL ops course_id (i_id lecture)) w) = Json info) \<and>
    first_src ''application/dash+xml'' (li_media_sources info) = Some u \<longrightarrow>
      (\<exists>esx esy wz. main_download ops a course_dir course_id (pre @ chap # rest) w =
         (Inr (),
          esx @ [Log WARNING DrmProtected,
                 DownloadMPD u
                   (path_join (path_join course_dir
                      (numbered ops (Suc (length pre)) (c_title chap))) (str_int (i_id lecture)))
                   (numbered ops (Suc (length before)) (i_title lecture)) None] @ esy, wz)))"
proof (intro conjI impI)
  assume h: "\<not> i_is_free lecture \<and>
    first_src ''application/dash+xml'' (li_media_sources info) = Some u"
  then show "media_stage ops lecture info temp_folder_path lindex None w =
        (case download_and_merge_mpd ops u temp_folder_path
                (numbered ops lindex (i_title lecture)) None w of
           (r, w') \<Rightarrow>
             ((case r of None \<Rightarrow> Inr () | Some e \<Rightarrow> Inl e),
              [Log WARNING DrmProtected,
               DownloadMPD u temp_folder_path (numbered ops lindex (i_title lecture)) None],
              w'))"
    by (simp add: media_stage_def Let_def seq_def logger_def call_def
        split: prod.splits option.splits)
next
  assume h: "i_class lecture = ''lecture'' \<and> \<not> i_is_free lecture \<and>
    create_directory ops (path_join folder_path (str_int (i_id lecture))) w = (Inr (), esa, wa) \<and>
    fetch_lecture_info ops course_id (i_id lecture) wa = (Inr info, esb, wb) \<and>
    captions_stage ops g lecture info folder_path lindex wb = (Inr (), esc, wc) \<and>
    assets_stage ops lecture info course_id folder_path wc = (Inr (), esd, wd) \<and>
    first_src ''application/dash+xml'' (li_media_sources info) = Some u"
  then show "process_lecture ops g chap lecture course_id folder_path lindex None w =
        (case download_and_merge_mpd ops u (path_join folder_path (str_int (i_id lecture)))
                (numbered ops lindex (i_title lecture)) None wd of
           (r, we) \<Rightarrow>
             ((case r of None \<Rightarrow> Inr () | Some e \<Rightarrow> Inl e),
              esa @ esb @
              [Log INFO (DownloadingLecture (i_title lecture) lindex (length (children chap)))] @
              esc @ esd @
              [Log WARNING DrmProtected,
               DownloadMPD u (path_join folder_path (str_int (i_id lecture)))
                 (numbered ops lindex (i_title lecture)) None],
              we))"
    by (simp add: process_lecture_def media_stage_def Let_def seq_def logger_def call_def
        split: prod.splits option.splits)
next
  assume "a_key a = None"
  then show "main_download ops a course_dir course_id curric =
        seq (logger INFO DownloadStarting) (\<lambda>_.
        seq (download_course ops
               \<lparr>g_key = None,
                g_captions = (case a_captions a of None \<Rightarrow> [''en_US'']
                   | Some c \<Rightarrow> if c = [] then [''en_US''] else split_on CHR '','' c),
                g_COURSE_DIR = course_dir\<rparr> course_id curric) (\<lambda>_.
        seq (logger INFO AllDownloaded) (\<lambda>_. logger INFO DownloadComplete)))"
    by (simp add: main_download_def Let_def)
next
  assume h: "no_failure ops \<and> g_key g = None \<and> children chap = before @ lecture # after \<and>
    i_class lecture = ''lecture'' \<and> \<not> i_is_free lecture \<and>
    (\<forall>w. fst (get_lecture_json ops (LECTURE_URL ops course_id (i_id lecture)) w) = Json info) \<and>
    first_src ''application/dash+xml'' (li_media_sources info) = Some u"
  then show "\<exists>esx esy wz. download_course ops g course_id (pre @ chap # rest) w =
         (Inr (),
          esx @ [Log WARNING DrmProtected,
                 DownloadMPD u
                   (path_join (path_join (g_COURSE_DIR g)
                      (numbered ops (Suc (length pre)) (c_title chap))) (str_int (i_id lecture)))
                   (numbered ops (Suc (length before)) (i_title lecture)) None] @ esy, wz)"
    using download_course_no_key[of ops g chap before lecture after course_id info u pre rest w]
    by blast
next
  assume h: "no_failure ops \<and> a_key a = None \<and> children chap = before @ lecture # after \<and>
    i_class lecture = ''lecture'' \<and> \<not> i_is_free lecture \<and>
    (\<forall>w. fst (get_lecture_json ops (LECTURE_URL ops course_id (i_id lecture)) w) = Json info) \<and>
    first_src ''application/dash+xml'' (li_media_sources info) = Some u"
  let ?g = "\<lparr>g_key = None,
                g_captions = (case a_captions a of None \<Rightarrow> [''en_US'']
                   | Some c \<Rightarrow> if c = [] then [''en_US''] else split_on CHR '','' c),
                g_COURSE_DIR = course_dir\<rparr>"
  let ?X = "[Log WARNING DrmProtected,
                 DownloadMPD u
                   (path_join (path_join course_dir
                      (numbered ops (Suc (length pre)) (c_title chap))) (str_int (i_id lecture)))
                   (numbered ops (Suc (length before)) (i_title lecture)) None]"
  have md: "main_download ops a course_dir course_id (pre @ chap # rest) =
        seq (logger INFO DownloadStarting) (\<lambda>_.
        seq (download_course ops ?g course_id (pre @ chap # rest)) (\<lambda>_.
        seq (logger INFO AllDownloaded) (\<lambda>_. logger INFO DownloadComplete)))"
    using h by (simp add: main_download_def Let_def)
  have "\<exists>esx esy wz. download_course ops ?g course_id (pre @ chap # rest) w =
         (Inr (), esx @ [Log WARNING DrmProtected,
                 DownloadMPD u
                   (path_join (path_join (g_COURSE_DIR ?g)
                      (numbered ops (Suc (length pre)) (c_title chap))) (str_int (i_id lecture)))
                   (numbered ops (Suc (length before)) (i_title lecture)) None] @ esy, wz)"
    using h download_course_no_key[of ops ?g chap before lecture after course_id info u pre rest w]
    by simp
  then obtain esx esy wz where dc: "download_course ops ?g course_id (pre @ chap # rest) w =
         (Inr (), esx @ ?X @ esy, wz)"
    by auto
  have "main_download ops a course_dir course_id (pre @ chap # rest) w =
      (Inr (), (Log INFO DownloadStarting # esx) @ ?X @
               (esy @ [Log INFO AllDownloaded, Log INFO DownloadComplete]), wz)"
    unfolding md by (simp add: seq_def logger_def dc)
  then show "\<exists>esx esy wz. main_download ops a course_dir course_id (pre @ chap # rest) w =
         (Inr (), esx @ ?X @ esy, wz)"
    by blast
qed


theorem missing_key_warns_and_downloads_witness:
  "process_lecture
      (ex_ops (ex_table [])
         (ex_table [(''l/10'', ex_info 10 [] [ex_source ''application/dash+xml'' ''d''])]))
      (ex_globals None) (ex_chapter 1 ''A'' [ex_item ''lecture'' 10 ''L''])
      (ex_item ''lecture'' 10 ''L'') 7 ''course/1. A'' 1 None () =
     (Inr (),
      [Makedirs ''course/1. A/10'', HttpGet ''l/10'', Log INFO (DownloadingLecture ''L'' 1 1),
       Log WARNING DrmProtected, DownloadMPD ''d'' ''course/1. A/10'' ''1. L'' None], ()) \<and>
   main_download
      (ex_ops (ex_table []) (ex_always (ex_info 0 [] [ex_source ''application/dash+xml'' ''d''])))
      \<lparr>a_key = None, a_threads = 4, a_captions = None\<rparr> ''course'' 7
      ([ex_chapter 1 ''A'' [ex_item ''lecture'' 9 ''K'']] @
       ex_chapter 2 ''B'' ([ex_item ''lecture'' 10 ''L''] @ ex_item ''lecture'' 11 ''M'' # []) # [])
      () =
     (Inr (),
      [Log INFO DownloadStarting,
       ThreadPoolExecutor 1,
       Log INFO (DownloadingChapter ''A'' 1 2),
       Makedirs ''course/1. A/9'', HttpGet ''l/9'', Log INFO (DownloadingLecture ''K'' 1 1),
       Log WARNING DrmProtected, DownloadMPD ''d'' ''course/1. A/9'' ''1. K'' None,
       Log INFO (DownloadingChapter ''B'' 2 2),
       Makedirs ''course/2. B/10'', HttpGet ''l/10'', Log INFO (DownloadingLecture ''L'' 1 2),
       Log WARNING DrmProtected, DownloadMPD ''d'' ''course/2. B/10'' ''1. L'' None,
       Makedirs ''course/2. B/11'', HttpGet ''l/11'', Log INFO (DownloadingLecture ''M'' 2 2),
       Log WARNING DrmProtected, DownloadMPD ''d'' ''course/2. B/11'' ''2. M'' None,
       Log INFO AllDownloaded, Log INFO DownloadComplete], ())"
proof -
  let ?info = "ex_info 10 [] [ex_source ''application/dash+xml'' ''d'']"
  let ?ops = "ex_ops (ex_table []) (ex_table [(''l/10'', ?info)]) :: unit ops"
  let ?lec = "ex_item ''lecture'' 10 ''L''"
  let ?chap = "ex_chapter 1 ''A'' [?lec]"
  have id: "i_id ?lec = 10" "i_title ?lec = ''L''" by (simp_all add: ex_item_def)
  have tmp: "path_join ''course/1. A'' (str_int 10) = ''course/1. A/10''"
    by (simp add: path_join_def str_int_def str_nat.simps digit_char_def)
  have nm: "numbered ?ops 1 ''L'' = ''1. L''"
    by (simp add: numbered_def ex_ops_def str_int_def str_nat.simps digit_char_def)
  have url: "LECTURE_URL ?ops 7 10 = ''l/10''"
    by (simp add: ex_ops_def str_int_def str_nat.simps digit_char_def)
  have h: "i_class ?lec = ''lecture'' \<and> \<not> i_is_free ?lec \<and>
    create_directory ?ops (path_join ''course/1. A'' (str_int (i_id ?lec))) () =
      (Inr (), [Makedirs ''course/1. A/10''], ()) \<and>
    fetch_lecture_info ?ops 7 (i_id ?lec) () = (Inr ?info, [HttpGet ''l/10''], ()) \<and>
    captions_stage ?ops (ex_globals None) ?lec ?info ''course/1. A'' 1 () = (Inr (), [], ()) \<and>
    assets_stage ?ops ?lec ?info 7 ''course/1. A'' () = (Inr (), [], ()) \<and>
    first_src ''application/dash+xml'' (li_media_sources ?info) = Some ''d''"
    unfolding id tmp
    by (simp add: create_directory_def fetch_lecture_info_def request_def url
        captions_stage_def assets_stage_def skip_def)
       (simp add: ex_ops_def ex_table_def ex_item_def ex_info_def ex_source_def)
  have "process_lecture ?ops (ex_globals None) ?chap ?lec 7 ''course/1. A'' 1 None () =
        (case download_and_merge_mpd ?ops ''d'' (path_join ''course/1. A'' (str_int (i_id ?lec)))
                (numbered ?ops 1 (i_title ?lec)) None () of
           (r, we) \<Rightarrow>
             ((case r of None \<Rightarrow> Inr () | Some e \<Rightarrow> Inl e),
              [Makedirs ''course/1. A/10''] @ [HttpGet ''l/10''] @
              [Log INFO (DownloadingLecture (i_title ?lec) 1 (length (children ?chap)))] @
              [] @ [] @
              [Log WARNING DrmProtected,
               DownloadMPD ''d'' (path_join ''course/1. A'' (str_int (i_id ?lec)))
                 (numbered ?ops 1 (i_title ?lec)) None],
              we))"
    using missing_key_warns_and_downloads[where lecture = ?lec and info = ?info and u = "''d''"
        and ops = ?ops and folder_path = "''course/1. A''" and w = "()" and wa = "()"
        and wb = "()" and wc = "()" and wd = "()" and esa = "[Makedirs ''course/1. A/10'']"
        and esb = "[HttpGet ''l/10'']" and esc = "[]" and esd = "[]" and course_id = 7
        and g = "ex_globals None" and lindex = 1 and chap = ?chap] h
    by blast
  then have first: "process_lecture ?ops (ex_globals None) ?chap ?lec 7 ''course/1. A'' 1 None () =
     (Inr (),
      [Makedirs ''course/1. A/10'', HttpGet ''l/10'', Log INFO (DownloadingLecture ''L'' 1 1),
       Log WARNING DrmProtected, DownloadMPD ''d'' ''course/1. A/10'' ''1. L'' None], ())"
    unfolding id tmp nm by (simp add: ex_ops_def ex_chapter_def)
  let ?infoK = "ex_info 0 [] [ex_source ''application/dash+xml'' ''d'']"
  let ?opsK = "ex_ops (ex_table []) (ex_always ?infoK) :: unit ops"
  let ?a = "\<lparr>a_key = None, a_threads = 4, a_captions = None\<rparr>"
  let ?M = "ex_item ''lecture'' 11 ''M''"
  let ?B = "ex_chapter 2 ''B'' ([ex_item ''lecture'' 10 ''L''] @ ?M # [])"
  let ?pre = "[ex_chapter 1 ''A'' [ex_item ''lecture'' 9 ''K'']]"
  have hk: "no_failure ?opsK \<and> a_key ?a = None \<and>
    children ?B = [ex_item ''lecture'' 10 ''L''] @ ?M # [] \<and>
    i_class ?M = ''lecture'' \<and> \<not> i_is_free ?M \<and>
    (\<forall>w. fst (get_lecture_json ?opsK (LECTURE_URL ?opsK 7 (i_id ?M)) w) = Json ?infoK) \<and>
    first_src ''application/dash+xml'' (li_media_sources ?infoK) = Some ''d''"
    by (simp add: no_failure_def ex_ops_def ex_always_def ex_chapter_def ex_item_def
        ex_info_def ex_source_def)
  have ex: "\<exists>esx esy wz. main_download ?opsK ?a ''course'' 7 (?pre @ ?B # []) () =
         (Inr (),
          esx @ [Log WARNING DrmProtected,
                 DownloadMPD ''d''
                   (path_join (path_join ''course''
                      (numbered ?opsK (Suc (length ?pre)) (c_title ?B))) (str_int (i_id ?M)))
                   (numbered ?opsK (Suc (length [ex_item ''lecture'' 10 ''L''])) (i_title ?M)) None] @ esy, wz)"
    using missing_key_warns_and_downloads[where ops = ?opsK and a = ?a and chap = ?B
        and before = "[ex_item ''lecture'' 10 ''L'']" and lecture = ?M and after = "[]"
        and course_id = 7 and info = ?infoK and u = "''d''" and pre = ?pre and rest = "[]"
        and course_dir = "''course''" and w = "()"] hk
    by blast
  have second: "main_download ?opsK ?a ''course'' 7 (?pre @ ?B # []) () =
     (Inr (),
      [Log INFO DownloadStarting,
       ThreadPoolExecutor 1,
       Log INFO (DownloadingChapter ''A'' 1 2),
       Makedirs ''course/1. A/9'', HttpGet ''l/9'', Log INFO (DownloadingLecture ''K'' 1 1),
       Log WARNING DrmProtected, DownloadMPD ''d'' ''course/1. A/9'' ''1. K'' None,
       Log INFO (DownloadingChapter ''B'' 2 2),
       Makedirs ''course/2. B/10'', HttpGet ''l/10'', Log INFO (DownloadingLecture ''L'' 1 2),
       Log WARNING DrmProtected, DownloadMPD ''d'' ''course/2. B/10'' ''1. L'' None,
       Makedirs ''course/2. B/11'', HttpGet ''l/11'', Log INFO (DownloadingLecture ''M'' 2 2),
       Log WARNING DrmProtected, DownloadMPD ''d'' ''course/2. B/11'' ''2. M'' None,
       Log INFO AllDownloaded, Log INFO DownloadComplete], ())"
    by (simp add: main_download_def ex_run_defs)
  show ?thesis using first second ex by blast
qed

section \<open>Properties of the curriculum cache\<close>

subsection \<open>The encoder and the decoder on examples\<close>

text \<open>
  The text written for the example curriculum, line by line; it is the text that
  Python's \<^verbatim>\<open>json.dumps(course_curriculum, indent=4)\<close> gives for the same value.
\<close>

lemma json_dumps_example:
  "json_dumps (curriculum_json ex_cache_curriculum) =
     join_with [CHR 0x0A]
      [''['',
       ''    {'',
       ''        '' @ [CHR 0x22] @ ''id'' @ [CHR 0x22] @ '': 10,'',
       ''        '' @ [CHR 0x22] @ ''title'' @ [CHR 0x22] @ '': '' @ [CHR 0x22] @ ''One'' @ [CHR 0x22] @ '','',
       ''        '' @ [CHR 0x22] @ ''description'' @ [CHR 0x22] @ '': '' @ [CHR 0x22] @ ''first'' @ [CHR 0x22] @ '','',
       ''        '' @ [CHR 0x22] @ ''is_published'' @ [CHR 0x22] @ '': true,'',
       ''        '' @ [CHR 0x22] @ ''children'' @ [CHR 0x22] @ '': ['',
       ''            {'',
       ''                '' @ [CHR 0x22] @ ''_class'' @ [CHR 0x22] @ '': '' @ [CHR 0x22] @ ''lecture'' @ [CHR 0x22] @ '','',
       ''                '' @ [CHR 0x22] @ ''id'' @ [CHR 0x22] @ '': 31,'',
       ''                '' @ [CHR 0x22] @ ''title'' @ [CHR 0x22] @ '': '' @ [CHR 0x22] @ ''Say '' @ [CHR 0x5C, CHR 0x22] @ ''hi'' @ [CHR 0x5C, CHR 0x22, CHR 0x22] @ '','',
       ''                '' @ [CHR 0x22] @ ''description'' @ [CHR 0x22] @ '': '' @ [CHR 0x22] @ ''a'' @ [CHR 0x5C, CHR 0x5C, CHR 0x5C] @ ''n'' @ [CHR 0x5C] @ ''u00e9b'' @ [CHR 0x22] @ '','',
       ''                '' @ [CHR 0x22] @ ''is_published'' @ [CHR 0x22] @ '': true,'',
       ''                '' @ [CHR 0x22] @ ''is_free'' @ [CHR 0x22] @ '': false,'',
       ''                '' @ [CHR 0x22] @ ''supplementary_assets'' @ [CHR 0x22] @ '': ['',
       ''                    '' @ [CHR 0x22] @ ''notes.pdf'' @ [CHR 0x22],
       ''                ]'',
       ''            },'',
       ''            {'',
       ''                '' @ [CHR 0x22] @ ''_class'' @ [CHR 0x22] @ '': '' @ [CHR 0x22] @ ''practice'' @ [CHR 0x22] @ '','',
       ''                '' @ [CHR 0x22] @ ''id'' @ [CHR 0x22] @ '': -4,'',
       ''                '' @ [CHR 0x22] @ ''title'' @ [CHR 0x22] @ '': '' @ [CHR 0x22] @ ''Quiz'' @ [CHR 0x22] @ '','',
       ''                '' @ [CHR 0x22] @ ''description'' @ [CHR 0x22] @ '': '' @ [CHR 0x22, CHR 0x22] @ '','',
       ''                '' @ [CHR 0x22] @ ''is_published'' @ [CHR 0x22] @ '': false,'',
       ''                '' @ [CHR 0x22] @ ''is_free'' @ [CHR 0x22] @ '': true,'',
       ''                '' @ [CHR 0x22] @ ''supplementary_assets'' @ [CHR 0x22] @ '': []'',
       ''            }'',
       ''        ]'',
       ''    },'',
       ''    {'',
       ''        '' @ [CHR 0x22] @ ''id'' @ [CHR 0x22] @ '': 20,'',
       ''        '' @ [CHR 0x22] @ ''title'' @ [CHR 0x22] @ '': '' @ [CHR 0x22] @ ''Two'' @ [CHR 0x22] @ '','',
       ''        '' @ [CHR 0x22] @ ''description'' @ [CHR 0x22] @ '': '' @ [CHR 0x22, CHR 0x22] @ '','',
       ''        '' @ [CHR 0x22] @ ''is_published'' @ [CHR 0x22] @ '': false,'',
       ''        '' @ [CHR 0x22] @ ''children'' @ [CHR 0x22] @ '': []'',
       ''    }'',
       '']'']"
  by code_simp

text \<open>
  The decoder on texts that no encoder wrote: white space around the tokens, a key that
  comes twice, escapes; and the errors of a trailing comma, a leading zero, a tab inside
  a string, a text cut short, and text after the value.
\<close>

lemma json_loads_examples:
  "json_loads ('' [ 1 , -0 , 10 ] '') = Some (JArr [JInt 1, JInt 0, JInt 10])"
  "json_loads (''{'' @ [CHR 0x22] @ ''b'' @ [CHR 0x22] @ '':1,'' @ [CHR 0x22] @ ''a'' @ [CHR 0x22]
      @ '' : [ ],'' @ [CHR 0x22] @ ''b'' @ [CHR 0x22] @ '':null}'')
     = Some (JObj [(''b'', JNull), (''a'', JArr [])])"
  "json_loads ([CHR 0x22, CHR 0x5C] @ ''u00E9'' @ [CHR 0x5C] @ ''/'' @ [CHR 0x5C] @ ''n'' @ [CHR 0x22])
     = Some (JStr [CHR 0xE9, CHR ''/'', CHR 0x0A])"
  "json_loads ''[1,]'' = None"
  "json_loads ''[01]'' = None"
  "json_loads ([CHR 0x22] @ ''a'' @ [CHR 0x09] @ ''b'' @ [CHR 0x22]) = None"
  "json_loads ''[[1]'' = None"
  "json_loads ''tru'' = None"
  "json_loads ''{} x'' = None"
  by code_simp+

subsection \<open>Numbers\<close>









subsection \<open>Strings\<close>






subsection \<open>White space and the first character of a value\<close>










subsection \<open>Decoding what the encoder wrote\<close>











subsection \<open>The depth given by \<open>json_loads\<close> is enough\<close>





subsection \<open>A curriculum as a Python value\<close>










subsection \<open>Saving, then loading\<close>

text \<open>
  What the two branches do without a round trip: a file that is missing or does not
  parse ends the run with exit status 1, and saving over a file warns and replaces it.
\<close>

lemma cache_examples:
  "load_curriculum ''/home/u'' (Given ''c.json'') ex_no_files
     = (Inl (SystemExit 1), [Log ERROR CurriculumFileMissing])"
  "load_curriculum ''/home/u'' (Given ''c.json'') (ex_no_files(Path ''c.json'' \<mapsto> ''[1,]''))
     = (Inl (SystemExit 1), [Log ERROR CurriculumMalformed])"
  "load_curriculum ''/home/u'' Flag (ex_no_files(Path ''/home/u/course.json'' \<mapsto> ''[]''))
     = (Inr (JArr []), [Log INFO (CurriculumLoaded ''course.json'')])"
  "fst (save_curriculum ''/home/u'' (Given ''c.json'') (JArr [])
          (ex_no_files(Path ''c.json'' \<mapsto> ''old'')))
     = [Log WARNING CurriculumFileExists, Log INFO (CurriculumSaved ''c.json'')]"
  "snd (save_curriculum ''/home/u'' (Given ''c.json'') (JArr [])
          (ex_no_files(Path ''c.json'' \<mapsto> ''old''))) (Path ''c.json'') = Some ''[]''"
  "save_curriculum ''/home/u'' Absent (JArr []) ex_no_files = ([], ex_no_files)"
  by (simp_all add: load_curriculum_def save_curriculum_def json_dump_to_def json_load_def
        ex_no_files_def path_join_def json_dumps_def)
     code_simp+



end
